theory Spec2Isabelle
  imports Main "HOL-Library.FSet"
begin

section \<open>Values, errors and the standard-library interface\<close>

text \<open>
  The resolver of \<^verbatim>\<open>ref_resolver.py\<close> works on decoded JSON documents.  A document is a
  tree: null, booleans, numbers (integers and floats kept apart; a float \<open>JFloat m e\<close> stands
  for \<open>m * 2 ^ e\<close>, its payload is never inspected), strings, arrays and objects.  An object is
  a Python \<^verbatim>\<open>dict\<close>: an association list in insertion order whose keys are strings.
  Strings are lists of characters; a character is a code point below 256.
\<close>

datatype json =
    JNull
  | JBool bool
  | JInt int
  | JFloat int int
  | JString string
  | JArray "json list"
  | JObject "(string \<times> json) list"

text \<open>
  Every \<^verbatim>\<open>raise\<close> of the source and every exception of a library call is a value of
  type \<open>error\<close>; a computation that may raise returns \<open>error + 'a\<close> with \<open>Inl\<close> the
  exception.
\<close>

datatype error =
    JsonSchemaDefinitionException string
  | ValueError string
  | IndexError
  | KeyError string
  | TypeError
  | AttributeError
  | RecursionError
  | OtherError string

definition ebind :: "error + 'a \<Rightarrow> ('a \<Rightarrow> error + 'b) \<Rightarrow> error + 'b" where
  "ebind m f = (case m of Inl e \<Rightarrow> Inl e | Inr x \<Rightarrow> f x)"

text \<open>The five components that \<^verbatim>\<open>urllib.parse.urlsplit\<close> returns.\<close>

record split_result =
  scheme :: string
  netloc :: string
  path :: string
  query :: string
  fragment :: string

text \<open>
  The functions of Python's standard library that the resolver calls are not part of the
  repository.  They are parameters of the model, collected in one record, so that every
  general theorem below holds whatever these functions compute:
  \<^item> \<open>urlsplit\<close>, \<open>urlunsplit\<close>, \<open>urljoin\<close>, \<open>urldefrag\<close>, \<open>unquote\<close> of
    \<^verbatim>\<open>urllib.parse\<close> on strings (\<open>unquote\<close> never raises on a string);
  \<^item> \<open>str_to_int\<close>, the builtin \<^verbatim>\<open>int(part)\<close> on a string, \<open>None\<close> for its
    \<^verbatim>\<open>ValueError\<close>;
  \<^item> \<open>urlopen\<close>, \<^verbatim>\<open>urllib.request.urlopen(uri)\<close>, returning a response;
    \<open>read_decode\<close>, \<^verbatim>\<open>req.read().decode(encoding)\<close> on that response; and
    \<open>json_loads\<close>, \<^verbatim>\<open>json.loads\<close>.
\<close>

record stdlib =
  urlsplit :: "string \<Rightarrow> error + split_result"
  urlunsplit :: "split_result \<Rightarrow> error + string"
  urljoin :: "string \<Rightarrow> string \<Rightarrow> error + string"
  urldefrag :: "string \<Rightarrow> error + string \<times> string"
  unquote :: "string \<Rightarrow> string"
  str_to_int :: "string \<Rightarrow> int option"
  urlopen :: "string \<Rightarrow> error + string"
  read_decode :: "string \<Rightarrow> error + string"
  json_loads :: "string \<Rightarrow> error + json"

section \<open>String operations of Python used by the source\<close>

definition code_of :: "char \<Rightarrow> nat" where
  "code_of c = of_char c"

definition is_upper :: "char \<Rightarrow> bool" where
  "is_upper c = (65 \<le> code_of c \<and> code_of c \<le> 90)"

definition is_lower :: "char \<Rightarrow> bool" where
  "is_lower c = (97 \<le> code_of c \<and> code_of c \<le> 122)"

definition is_digit :: "char \<Rightarrow> bool" where
  "is_digit c = (48 \<le> code_of c \<and> code_of c \<le> 57)"

definition is_alnum :: "char \<Rightarrow> bool" where
  "is_alnum c = (is_upper c \<or> is_lower c \<or> is_digit c)"

definition lower_char :: "char \<Rightarrow> char" where
  "lower_char c = (if is_upper c then char_of (code_of c + 32) else c)"

text \<open>\<^verbatim>\<open>s.lower()\<close> on a string of ASCII characters.\<close>

definition lower :: "string \<Rightarrow> string" where
  "lower s = map lower_char s"

text \<open>\<^verbatim>\<open>s.lstrip(cs)\<close> and \<^verbatim>\<open>s.rstrip(cs)\<close>: every leading (trailing) character that
  occurs in \<open>cs\<close> is removed.\<close>

definition lstrip :: "string \<Rightarrow> string \<Rightarrow> string" where
  "lstrip cs s = dropWhile (\<lambda>c. c \<in> set cs) s"

definition rstrip :: "string \<Rightarrow> string \<Rightarrow> string" where
  "rstrip cs s = rev (dropWhile (\<lambda>c. c \<in> set cs) (rev s))"

text \<open>\<^verbatim>\<open>s.split(c)\<close> for a separator of one character: never the empty list.\<close>

fun split_on :: "char \<Rightarrow> string \<Rightarrow> string list" where
  "split_on c [] = [[]]"
| "split_on c (x # xs) =
     (if x = c then [] # split_on c xs
      else (case split_on c xs of [] \<Rightarrow> [[x]] | w # ws \<Rightarrow> (x # w) # ws))"

text \<open>\<^verbatim>\<open>s.replace(old, new)\<close>: the occurrences of \<open>old\<close> are replaced from left to right
  without overlap; with an empty \<open>old\<close> Python puts \<open>new\<close> around every character.\<close>

function replace_str :: "string \<Rightarrow> string \<Rightarrow> string \<Rightarrow> string" where
  "replace_str old new s =
     (if old = [] then new @ concat (map (\<lambda>c. c # new) s)
      else if s = [] then []
      else if take (length old) s = old then new @ replace_str old new (drop (length old) s)
      else hd s # replace_str old new (tl s))"
  by pat_completeness auto
termination
  by (relation "measure (\<lambda>(old, new, s). length s)") auto

declare replace_str.simps [simp del]

section \<open>URI joining\<close>

text \<open>
  \<^verbatim>\<open>fixed_urljoin(url0, url1)\<close>, lines 26-46.  The tuple \<^verbatim>\<open>('http', *parts0[1:])\<close> is
  \<open>parts0\<close> with its scheme replaced, and \<^verbatim>\<open>(parts0.scheme, *joined_parts[1:])\<close> is
  \<open>joined_parts\<close> with the scheme of \<open>parts0\<close>.
\<close>

definition fixed_urljoin :: "stdlib \<Rightarrow> string \<Rightarrow> string \<Rightarrow> error + string" where
  "fixed_urljoin L url0 url1 =
     ebind (urlsplit L url0) (\<lambda>parts0.
       if scheme parts0 \<in> set [''http'', ''https''] then urljoin L url0 url1
       else ebind (urlsplit L url1) (\<lambda>parts1.
         if scheme parts1 \<noteq> '''' then Inr url1
         else ebind (urlunsplit L (parts0\<lparr>scheme := ''http''\<rparr>)) (\<lambda>url0_http.
           ebind (urljoin L url0_http url1) (\<lambda>joined_url.
             ebind (urlsplit L joined_url) (\<lambda>joined_parts.
               urlunsplit L (joined_parts\<lparr>scheme := scheme parts0\<rparr>))))))"

text \<open>\<^verbatim>\<open>normalize(uri)\<close>, lines 68-69: \<^verbatim>\<open>geturl()\<close> of a split result is
  \<^verbatim>\<open>urlunsplit\<close> of it.\<close>

definition normalize :: "stdlib \<Rightarrow> string \<Rightarrow> error + string" where
  "normalize L uri = ebind (urlsplit L uri) (urlunsplit L)"

section \<open>A reference instance of the standard-library interface\<close>

text \<open>
  The closed examples below need one concrete library.  The following definitions follow
  CPython 3.11's \<^verbatim>\<open>urllib/parse.py\<close> on strings of ASCII characters:
  \<^verbatim>\<open>urlsplit\<close> (with its default-scheme argument), \<^verbatim>\<open>urlunsplit\<close>,
  \<^verbatim>\<open>urlparse\<close>/\<^verbatim>\<open>urlunparse\<close>, \<^verbatim>\<open>urljoin\<close>, \<^verbatim>\<open>urldefrag\<close> and
  \<^verbatim>\<open>unquote\<close>.  Two simplifications: a bracketed host is only checked for balanced
  brackets, and \<open>py_unquote\<close> returns the decoded bytes themselves (exact when they are
  ASCII).  No general theorem depends on these definitions.
\<close>


definition uses_relative :: "string list" where
  "uses_relative = ['''', ''ftp'', ''http'', ''gopher'', ''nntp'', ''imap'',
     ''wais'', ''file'', ''https'', ''shttp'', ''mms'', ''prospero'', ''rtsp'', ''rtsps'',
     ''rtspu'', ''sftp'', ''svn'', ''svn+ssh'', ''ws'', ''wss'']"

definition uses_netloc :: "string list" where
  "uses_netloc = ['''', ''ftp'', ''http'', ''gopher'', ''nntp'', ''telnet'',
     ''imap'', ''wais'', ''file'', ''mms'', ''https'', ''shttp'', ''snews'', ''prospero'',
     ''rtsp'', ''rtsps'', ''rtspu'', ''rsync'', ''svn'', ''svn+ssh'', ''sftp'', ''nfs'',
     ''git'', ''git+ssh'', ''ws'', ''wss'']"

definition uses_params :: "string list" where
  "uses_params = ['''', ''ftp'', ''hdl'', ''prospero'', ''http'', ''imap'',
     ''https'', ''shttp'', ''rtsp'', ''rtsps'', ''rtspu'', ''sip'', ''sips'', ''mms'',
     ''sftp'', ''tel'']"

definition is_c0_or_space :: "char \<Rightarrow> bool" where
  "is_c0_or_space c = (code_of c \<le> 32)"

definition is_unsafe :: "char \<Rightarrow> bool" where
  "is_unsafe c = (code_of c = 9 \<or> code_of c = 13 \<or> code_of c = 10)"

definition is_scheme_char :: "char \<Rightarrow> bool" where
  "is_scheme_char c = (is_alnum c \<or> c \<in> set ''+-.'')"

text \<open>\<open>cut c s\<close> is \<^verbatim>\<open>s.split(c, 1)\<close> when \<open>c\<close> occurs in \<open>s\<close>.\<close>

definition cut :: "char \<Rightarrow> string \<Rightarrow> string \<times> string" where
  "cut c s = (takeWhile (\<lambda>x. x \<noteq> c) s, drop 1 (dropWhile (\<lambda>x. x \<noteq> c) s))"

definition py_urlsplit_default :: "string \<Rightarrow> string \<Rightarrow> error + split_result" where
  "py_urlsplit_default url0 scheme0 =
     (let url1 = filter (\<lambda>c. \<not> is_unsafe c) (dropWhile is_c0_or_space url0);
          dflt = filter (\<lambda>c. \<not> is_unsafe c)
                   (rev (dropWhile is_c0_or_space (rev (dropWhile is_c0_or_space scheme0))));
          pre = takeWhile (\<lambda>c. c \<noteq> CHR '':'') url1;
          found = (CHR '':'' \<in> set url1 \<and> pre \<noteq> [] \<and> (is_upper (hd url1) \<or> is_lower (hd url1))
                    \<and> list_all is_scheme_char pre);
          sch = (if found then lower pre else dflt);
          url2 = (if found then drop (length pre + 1) url1 else url1);
          has_netloc = (take 2 url2 = ''//'');
          after = drop 2 url2;
          nl = (if has_netloc then takeWhile (\<lambda>c. c \<notin> set ''/?#'') after else '''');
          url3 = (if has_netloc then dropWhile (\<lambda>c. c \<notin> set ''/?#'') after else url2)
      in if (CHR ''['' \<in> set nl \<and> CHR '']'' \<notin> set nl) \<or> (CHR '']'' \<in> set nl \<and> CHR ''['' \<notin> set nl)
         then Inl (ValueError ''Invalid IPv6 URL'')
         else
           (let frag = (if CHR ''#'' \<in> set url3 then snd (cut CHR ''#'' url3) else '''');
                url4 = (if CHR ''#'' \<in> set url3 then fst (cut CHR ''#'' url3) else url3);
                qry = (if CHR ''?'' \<in> set url4 then snd (cut CHR ''?'' url4) else '''');
                url5 = (if CHR ''?'' \<in> set url4 then fst (cut CHR ''?'' url4) else url4)
            in Inr \<lparr>scheme = sch, netloc = nl, path = url5, query = qry, fragment = frag\<rparr>))"

definition py_urlsplit :: "string \<Rightarrow> error + split_result" where
  "py_urlsplit url = py_urlsplit_default url ''''"

definition py_urlunsplit :: "split_result \<Rightarrow> error + string" where
  "py_urlunsplit p =
     (let url1 = (if netloc p \<noteq> '''' \<or> (scheme p \<noteq> '''' \<and> scheme p \<in> set uses_netloc)
                       \<or> take 2 (path p) = ''//''
                  then ''//'' @ netloc p @
                       (if path p \<noteq> '''' \<and> take 1 (path p) \<noteq> ''/'' then ''/'' @ path p else path p)
                  else path p);
          url2 = (if scheme p \<noteq> '''' then scheme p @ '':'' @ url1 else url1);
          url3 = (if query p \<noteq> '''' then url2 @ ''?'' @ query p else url2)
      in Inr (if fragment p \<noteq> '''' then url3 @ ''#'' @ fragment p else url3))"

text \<open>\<^verbatim>\<open>_splitparams\<close>: the parameters follow the first \<open>;\<close> of the last path segment.\<close>

definition splitparams :: "string \<Rightarrow> string \<times> string" where
  "splitparams url =
     (if CHR ''/'' \<in> set url then
        (let last_seg = rev (takeWhile (\<lambda>c. c \<noteq> CHR ''/'') (rev url));
             front = take (length url - length last_seg) url
         in if CHR '';'' \<in> set last_seg
            then (front @ fst (cut CHR '';'' last_seg), snd (cut CHR '';'' last_seg))
            else (url, ''''))
      else cut CHR '';'' url)"

definition py_urlparse :: "string \<Rightarrow> string \<Rightarrow> error + split_result \<times> string" where
  "py_urlparse url dflt =
     ebind (py_urlsplit_default url dflt) (\<lambda>p.
       if scheme p \<in> set uses_params \<and> CHR '';'' \<in> set (path p)
       then Inr (p\<lparr>path := fst (splitparams (path p))\<rparr>, snd (splitparams (path p)))
       else Inr (p, ''''))"

definition py_urlunparse :: "split_result \<Rightarrow> string \<Rightarrow> error + string" where
  "py_urlunparse p params =
     py_urlunsplit (if params \<noteq> '''' then p\<lparr>path := path p @ '';'' @ params\<rparr> else p)"

definition join_with :: "char \<Rightarrow> string list \<Rightarrow> string" where
  "join_with c xs = (case xs of [] \<Rightarrow> [] | y # ys \<Rightarrow> y @ concat (map (\<lambda>s. c # s) ys))"

definition resolve_segments :: "string list \<Rightarrow> string list" where
  "resolve_segments segments =
     foldl (\<lambda>resolved seg.
        if seg = ''..'' then butlast resolved
        else if seg = ''.'' then resolved
        else resolved @ [seg]) [] segments
     @ (if last segments \<in> set [''.'', ''..''] then [''''] else [])"

definition py_urljoin :: "string \<Rightarrow> string \<Rightarrow> error + string" where
  "py_urljoin base url =
     (if base = '''' then Inr url
      else if url = '''' then Inr base
      else ebind (py_urlparse base '''') (\<lambda>(b, bparams).
           ebind (py_urlparse url (scheme b)) (\<lambda>(u, params).
             if scheme u \<noteq> scheme b \<or> scheme u \<notin> set uses_relative then Inr url
             else if scheme u \<in> set uses_netloc \<and> netloc u \<noteq> '''' then py_urlunparse u params
             else
               (let nl = (if scheme u \<in> set uses_netloc then netloc b else netloc u)
                in if path u = '''' \<and> params = ''''
                   then py_urlunparse
                          (u\<lparr>netloc := nl, path := path b,
                             query := (if query u = '''' then query b else query u)\<rparr>) bparams
                   else
                     (let base_parts0 = split_on CHR ''/'' (path b);
                          base_parts = (if last base_parts0 \<noteq> '''' then butlast base_parts0
                                        else base_parts0);
                          segments0 = base_parts @ split_on CHR ''/'' (path u);
                          segments =
                            (if take 1 (path u) = ''/'' then split_on CHR ''/'' (path u)
                             else if length segments0 \<ge> 2
                               then hd segments0 # filter (\<lambda>s. s \<noteq> '''') (butlast (tl segments0))
                                    @ [last segments0]
                               else segments0);
                          joined = join_with CHR ''/'' (resolve_segments segments)
                      in py_urlunparse
                           (u\<lparr>netloc := nl, path := (if joined = '''' then ''/'' else joined)\<rparr>)
                           params)))))"

definition py_urldefrag :: "string \<Rightarrow> error + string \<times> string" where
  "py_urldefrag url =
     (if CHR ''#'' \<in> set url
      then ebind (py_urlparse url '''') (\<lambda>(p, params).
             ebind (py_urlunparse (p\<lparr>fragment := ''''\<rparr>) params) (\<lambda>defrag.
               Inr (defrag, fragment p)))
      else Inr (url, ''''))"

definition hex_val :: "char \<Rightarrow> nat option" where
  "hex_val c =
     (if is_digit c then Some (code_of c - 48)
      else if 65 \<le> code_of c \<and> code_of c \<le> 70 then Some (code_of c - 55)
      else if 97 \<le> code_of c \<and> code_of c \<le> 102 then Some (code_of c - 87)
      else None)"

fun py_unquote :: "string \<Rightarrow> string" where
  "py_unquote (p # a # b # rest) =
     (if p = CHR ''%'' then
        (case (hex_val a, hex_val b) of
           (Some h, Some l) \<Rightarrow> char_of (16 * h + l) # py_unquote rest
         | _ \<Rightarrow> p # py_unquote (a # b # rest))
      else p # py_unquote (a # b # rest))"
| "py_unquote s = s"

text \<open>The builtin \<^verbatim>\<open>int(s)\<close> on a string: surrounding white space is dropped, a sign
  may come first, and single underscores may separate the decimal digits.\<close>

definition is_space :: "char \<Rightarrow> bool" where
  "is_space c = ((9 \<le> code_of c \<and> code_of c \<le> 13) \<or> (28 \<le> code_of c \<and> code_of c \<le> 32)
                 \<or> code_of c = 133 \<or> code_of c = 160)"

fun int_digits :: "bool \<Rightarrow> int \<Rightarrow> string \<Rightarrow> int option" where
  "int_digits prev acc [] = (if prev then Some acc else None)"
| "int_digits prev acc (c # cs) =
     (if is_digit c then int_digits True (10 * acc + (int (code_of c) - 48)) cs
      else if c = CHR ''_'' \<and> prev then int_digits False acc cs
      else None)"

definition py_int :: "string \<Rightarrow> int option" where
  "py_int s =
     (let t = rev (dropWhile is_space (rev (dropWhile is_space s)))
      in case t of
           [] \<Rightarrow> None
         | c # r \<Rightarrow>
             if c = CHR ''-'' then map_option uminus (int_digits False 0 r)
             else if c = CHR ''+'' then int_digits False 0 r
             else int_digits False 0 t)"

text \<open>The reference library, for a network \<open>net\<close> (what \<^verbatim>\<open>urlopen\<close> answers; the
  response is the decoded body) and a JSON decoder \<open>loads\<close>.\<close>

definition py_stdlib :: "(string \<Rightarrow> error + string) \<Rightarrow> (string \<Rightarrow> error + json) \<Rightarrow> stdlib" where
  "py_stdlib net loads =
     \<lparr>urlsplit = py_urlsplit, urlunsplit = py_urlunsplit, urljoin = py_urljoin,
      urldefrag = py_urldefrag, unquote = py_unquote, str_to_int = py_int,
      urlopen = net, read_decode = Inr, json_loads = loads\<rparr>"

text \<open>A process without network access: \<^verbatim>\<open>urlopen\<close> raises, so the decoder is never
  reached.\<close>

definition py_offline :: stdlib where
  "py_offline = py_stdlib (\<lambda>uri. Inl (OtherError ''URLError''))
                          (\<lambda>body. Inl (ValueError ''Expecting value''))"

section \<open>Fragment resolution\<close>

text \<open>Line 58: \<^verbatim>\<open>part.replace('~1', '/').replace('~0', '~')\<close>.\<close>

definition unescape :: "string \<Rightarrow> string" where
  "unescape part = replace_str ''~0'' ''~'' (replace_str ''~1'' ''/'' part)"

text \<open>\<^verbatim>\<open>xs[i]\<close> on a Python list: a negative index counts from the end, an index out of
  range raises \<^verbatim>\<open>IndexError\<close>.\<close>

definition list_index :: "json list \<Rightarrow> int \<Rightarrow> error + json" where
  "list_index xs i =
     (let n = int (length xs); j = (if i < 0 then i + n else i)
      in if 0 \<le> j \<and> j < n then Inr (xs ! nat j) else Inl IndexError)"

text \<open>\<^verbatim>\<open>p in s\<close> for two strings: \<open>p\<close> occurs in \<open>s\<close> as a substring.\<close>

definition contains :: "string \<Rightarrow> string \<Rightarrow> bool" where
  "contains p s = list_ex (\<lambda>n. take (length p) (drop n s) = p) [0..<Suc (length s)]"

text \<open>
  The body of the loop of \<^verbatim>\<open>resolve_path\<close>, lines 58-64, for the current value and one
  part.  A list is indexed by \<^verbatim>\<open>int(part)\<close>.  Otherwise \<^verbatim>\<open>part in schema\<close> is evaluated:
  a key test on a dict, a substring test on a string (whose indexing by a string then raises
  \<^verbatim>\<open>TypeError\<close>), and a \<^verbatim>\<open>TypeError\<close> on null, a boolean or a number.
\<close>

definition resolve_step :: "stdlib \<Rightarrow> json \<Rightarrow> string \<Rightarrow> error + json" where
  "resolve_step L sch part0 =
     (let part = unescape part0
      in case sch of
           JArray xs \<Rightarrow>
             (case str_to_int L part of
                None \<Rightarrow> Inl (ValueError (''invalid literal for int() with base 10: '' @ part))
              | Some i \<Rightarrow> list_index xs i)
         | JObject kvs \<Rightarrow>
             (case map_of kvs part of
                Some v \<Rightarrow> Inr v
              | None \<Rightarrow> Inl (JsonSchemaDefinitionException (''Unresolvable ref: '' @ part)))
         | JString s \<Rightarrow>
             (if contains part s then Inl TypeError
              else Inl (JsonSchemaDefinitionException (''Unresolvable ref: '' @ part)))
         | _ \<Rightarrow> Inl TypeError)"

fun resolve_parts :: "stdlib \<Rightarrow> json \<Rightarrow> string list \<Rightarrow> error + json" where
  "resolve_parts L sch [] = Inr sch"
| "resolve_parts L sch (part # parts) =
     ebind (resolve_step L sch part) (\<lambda>sch'. resolve_parts L sch' parts)"

text \<open>\<^verbatim>\<open>resolve_path(schema, fragment)\<close>, lines 49-65.\<close>

definition resolve_path :: "stdlib \<Rightarrow> json \<Rightarrow> string \<Rightarrow> error + json" where
  "resolve_path L sch frag0 =
     (let frag = lstrip ''/'' frag0;
          parts = (if frag \<noteq> [] then split_on CHR ''/'' (unquote L frag) else [])
      in resolve_parts L sch parts)"






section \<open>The resolver\<close>

text \<open>
  A fetch handler maps a URI to a document or raises.  A store is a Python \<^verbatim>\<open>dict\<close> from
  URI to document.  Stores are objects that several resolvers may hold at once, so they live
  in a heap, addressed by numbers; a resolver holds the address of its store.
\<close>

type_synonym handler = "string \<Rightarrow> error + json"

type_synonym store_dict = "string \<rightharpoonup> json"

type_synonym heap = "nat \<Rightarrow> store_dict"

text \<open>
  The attributes of a \<^verbatim>\<open>RefResolver\<close>.  \<open>base_uri\<close> and \<open>resolution_scope\<close> are JSON
  values, since \<^verbatim>\<open>from_schema\<close> passes the \<open>$id\<close> of the schema unchecked.  An entry of
  \<open>handlers\<close> may hold Python's \<^verbatim>\<open>None\<close>.
\<close>

record resolver =
  base_uri :: json
  resolution_scope :: json
  schema :: json
  store :: nat
  cache :: bool
  handlers :: "string \<rightharpoonup> handler option"
  unique_name_registry :: "string \<rightharpoonup> string"
  unique_names_taken :: "string fset"

text \<open>\<^verbatim>\<open>get_id(schema)\<close>, lines 19-23, on the items of a dict:
  \<^verbatim>\<open>schema.get('$id', schema.get('id', ''))\<close>.\<close>

definition get_id :: "(string \<times> json) list \<Rightarrow> json" where
  "get_id kvs =
     (case map_of kvs ''$id'' of
        Some v \<Rightarrow> v
      | None \<Rightarrow> (case map_of kvs ''id'' of Some v \<Rightarrow> v | None \<Rightarrow> JString ''''))"

text \<open>
  \<^verbatim>\<open>fixed_urljoin(self.resolution_scope, url1)\<close>.  The scope is a string in every resolver
  whose \<open>base_uri\<close> is one.  For another value, CPython 3.11's \<^verbatim>\<open>urlsplit\<close> takes
  \<^verbatim>\<open>None\<close>, \<^verbatim>\<open>False\<close> and zero for the empty byte string (then a \<open>url1\<close> with a scheme
  is returned at line 37, and line 39 raises \<^verbatim>\<open>TypeError\<close> otherwise) and raises on
  anything else.
\<close>

definition coerced_empty :: "json \<Rightarrow> bool" where
  "coerced_empty v =
     (case v of JNull \<Rightarrow> True | JBool b \<Rightarrow> \<not> b | JInt i \<Rightarrow> i = 0 | JFloat m e \<Rightarrow> m = 0
      | _ \<Rightarrow> False)"

definition join_scope :: "stdlib \<Rightarrow> json \<Rightarrow> string \<Rightarrow> error + string" where
  "join_scope L scope url1 =
     (case scope of
        JString url0 \<Rightarrow> fixed_urljoin L url0 url1
      | JArray xs \<Rightarrow> Inl TypeError
      | JObject kvs \<Rightarrow> Inl TypeError
      | _ \<Rightarrow>
          if coerced_empty scope
          then ebind (urlsplit L url1) (\<lambda>parts1.
                 if scheme parts1 \<noteq> '''' then Inr url1 else Inl TypeError)
          else Inl AttributeError)"

text \<open>
  \<^verbatim>\<open>in_scope\<close>, lines 134-144.  A context manager is a function of the block it
  encloses; the block takes the heap and the resolver and returns its result, or the exception
  it raises, with the heap and the resolver as it leaves them.  The \<^verbatim>\<open>finally\<close> clause
  runs on both outcomes.  An exception of \<^verbatim>\<open>fixed_urljoin\<close> leaves before the scope is
  assigned.
\<close>

definition in_scope ::
  "stdlib \<Rightarrow> string \<Rightarrow> (heap \<Rightarrow> resolver \<Rightarrow> (error + 'a) \<times> heap \<times> resolver)
     \<Rightarrow> heap \<Rightarrow> resolver \<Rightarrow> (error + 'a) \<times> heap \<times> resolver" where
  "in_scope L scope block h r =
     (let old_scope = resolution_scope r
      in case join_scope L old_scope scope of
           Inl e \<Rightarrow> (Inl e, h, r)
         | Inr new_scope \<Rightarrow>
             (case block h (r\<lparr>resolution_scope := JString new_scope\<rparr>) of
                (res, h', r') \<Rightarrow> (res, h', r'\<lparr>resolution_scope := old_scope\<rparr>)))"

text \<open>\<^verbatim>\<open>resolve_remote(uri, handlers)\<close>, lines 72-96.  A \<^verbatim>\<open>ValueError\<close> of reading,
  decoding or parsing the body becomes a definition error; \<^verbatim>\<open>urlopen\<close> is outside the
  \<^verbatim>\<open>try\<close>.\<close>

definition resolve_remote :: "stdlib \<Rightarrow> string \<Rightarrow> (string \<rightharpoonup> handler option) \<Rightarrow> error + json" where
  "resolve_remote L uri hs =
     ebind (urlsplit L uri) (\<lambda>parts.
       case (case hs (scheme parts) of None \<Rightarrow> None | Some handler \<Rightarrow> handler) of
         Some handler \<Rightarrow> handler uri
       | None \<Rightarrow>
           ebind (urlopen L uri) (\<lambda>req.
             case ebind (read_decode L req) (json_loads L) of
               Inl (ValueError msg) \<Rightarrow>
                 Inl (JsonSchemaDefinitionException (uri @ '' failed to decode: '' @ msg))
             | result \<Rightarrow> result))"

text \<open>
  Lines 156-165 of \<^verbatim>\<open>resolving\<close>: the document that \<open>uri\<close> names, and the heap after
  the store has possibly been written.
\<close>

definition resolving_document ::
  "stdlib \<Rightarrow> string \<Rightarrow> string \<Rightarrow> heap \<Rightarrow> resolver \<Rightarrow> error + json \<times> heap" where
  "resolving_document L normalized_uri uri h r =
     (case h (store r) normalized_uri of
        Some doc \<Rightarrow> Inr (doc, h)
      | None \<Rightarrow>
          if uri = '''' \<or> JString uri = base_uri r then Inr (schema r, h)
          else ebind (resolve_remote L uri (handlers r)) (\<lambda>doc.
                 if cache r
                 then ebind (urlsplit L normalized_uri) (\<lambda>parts.
                        if scheme parts \<noteq> ''internal-no-cache''
                        then Inr (doc, h(store r := (h (store r))(normalized_uri \<mapsto> doc)))
                        else Inr (doc, h))
                 else Inr (doc, h)))"

text \<open>
  \<^verbatim>\<open>resolving\<close>, lines 146-173, as a function of the enclosed block, which receives the
  value of \<^verbatim>\<open>resolve_path(schema, fragment)\<close>.  An exception before line 167 leaves with
  nothing assigned; after it both \<^verbatim>\<open>finally\<close> clauses run.
\<close>

definition resolving ::
  "stdlib \<Rightarrow> string \<Rightarrow> (json \<Rightarrow> heap \<Rightarrow> resolver \<Rightarrow> (error + 'a) \<times> heap \<times> resolver)
     \<Rightarrow> heap \<Rightarrow> resolver \<Rightarrow> (error + 'a) \<times> heap \<times> resolver" where
  "resolving L ref body h r =
     (case join_scope L (resolution_scope r) ref of
        Inl e \<Rightarrow> (Inl e, h, r)
      | Inr new_uri \<Rightarrow>
     (case urldefrag L new_uri of
        Inl e \<Rightarrow> (Inl e, h, r)
      | Inr (uri, frag) \<Rightarrow>
     (case normalize L uri of
        Inl e \<Rightarrow> (Inl e, h, r)
      | Inr normalized_uri \<Rightarrow>
     (case resolving_document L normalized_uri uri h r of
        Inl e \<Rightarrow> (Inl e, h, r)
      | Inr (doc, h1) \<Rightarrow>
          (let old_base_uri = base_uri r;
               old_schema = schema r
           in case in_scope L uri
                     (\<lambda>h' r'. case resolve_path L doc frag of
                                 Inl e \<Rightarrow> (Inl e, h', r')
                               | Inr v \<Rightarrow> body v h' r')
                     h1 (r\<lparr>base_uri := JString uri, schema := doc\<rparr>) of
                (res, h2, r2) \<Rightarrow>
                  (res, h2, r2\<lparr>base_uri := old_base_uri, schema := old_schema\<rparr>))))))"

section \<open>Walking a schema\<close>

text \<open>
  \<^verbatim>\<open>node['$ref']\<close> when it is a string (line 205), and \<^verbatim>\<open>get_id(node)\<close> when the
  node has an \<open>$id\<close> or \<open>id\<close> key and the value is a string (line 208).
\<close>

definition str_ref :: "(string \<times> json) list \<Rightarrow> string option" where
  "str_ref kvs = (case map_of kvs ''$ref'' of Some (JString s) \<Rightarrow> Some s | _ \<Rightarrow> None)"

definition str_id :: "(string \<times> json) list \<Rightarrow> string option" where
  "str_id kvs =
     (if map_of kvs ''$id'' \<noteq> None \<or> map_of kvs ''id'' \<noteq> None
      then (case get_id kvs of JString s \<Rightarrow> Some s | _ \<Rightarrow> None)
      else None)"

text \<open>\<^verbatim>\<open>node[k] = v\<close> on a dict: the entry keeps its place, a new key goes to the end.\<close>

fun dict_set :: "string \<Rightarrow> json \<Rightarrow> (string \<times> json) list \<Rightarrow> (string \<times> json) list" where
  "dict_set k v [] = [(k, v)]"
| "dict_set k v (p # ps) = (if fst p = k then (k, v) # ps else p # dict_set k v ps)"

definition is_dict :: "json \<Rightarrow> bool" where
  "is_dict v = (case v of JObject kvs \<Rightarrow> True | _ \<Rightarrow> False)"

text \<open>
  What \<^verbatim>\<open>walk\<close> raises on a node that is neither a boolean nor a dict: the \<^verbatim>\<open>in\<close> test
  fails on null and numbers; a string or a list passes the tests it can and fails at the
  first subscript or method it lacks.
\<close>

definition walk_type_error :: "json \<Rightarrow> error" where
  "walk_type_error node =
     (case node of
        JString s \<Rightarrow> if contains ''$ref'' s then TypeError else AttributeError
      | JArray xs \<Rightarrow> if JString ''$ref'' \<in> set xs then TypeError else AttributeError
      | _ \<Rightarrow> TypeError)"

text \<open>
  \<^verbatim>\<open>walk(node)\<close>, lines 199-217.  The schema is a tree, as a JSON decoder produces it:
  no dict occurs twice in it.  The function takes the resolution scope in force (which
  \<^verbatim>\<open>in_scope\<close> sets for the nested calls and restores afterwards) and returns
  \<^item> the exception that ended the walk, if any;
  \<^item> the node as the walk leaves it, with the \<open>$ref\<close> entries it has rewritten in place;
  \<^item> the assignments \<^verbatim>\<open>self.store[key] = node\<close> it has made, in the order it made them.
    The store holds the node itself, not a copy, so the value of each assignment is the node
    as the walk leaves it.
\<close>

fun walk :: "stdlib \<Rightarrow> json \<Rightarrow> json \<Rightarrow> error option \<times> json \<times> (string \<times> json) list"
  and walk_items :: "stdlib \<Rightarrow> json \<Rightarrow> (string \<times> json) list
        \<Rightarrow> error option \<times> (string \<times> json) list \<times> (string \<times> json) list" where
  "walk L scope (JBool b) = (None, JBool b, [])"
| "walk L scope (JObject kvs) =
     (case str_ref kvs of
        Some ref \<Rightarrow>
          (case join_scope L scope ref of
             Inl e \<Rightarrow> (Some e, JObject kvs, [])
           | Inr uri \<Rightarrow> (None, JObject (dict_set ''$ref'' (JString uri) kvs), []))
      | None \<Rightarrow>
          (case str_id kvs of
             Some ident \<Rightarrow>
               (case join_scope L scope ident of
                  Inl e \<Rightarrow> (Some e, JObject kvs, [])
                | Inr new_scope \<Rightarrow>
                    (case normalize L new_scope of
                       Inl e \<Rightarrow> (Some e, JObject kvs, [])
                     | Inr key \<Rightarrow>
                         (case walk_items L (JString new_scope) kvs of
                            (err, kvs', writes) \<Rightarrow>
                              (err, JObject kvs', (key, JObject kvs') # writes))))
           | None \<Rightarrow>
               (case walk_items L scope kvs of
                  (err, kvs', writes) \<Rightarrow> (err, JObject kvs', writes))))"
| "walk L scope JNull = (Some (walk_type_error JNull), JNull, [])"
| "walk L scope (JInt i) = (Some (walk_type_error (JInt i)), JInt i, [])"
| "walk L scope (JFloat m e) = (Some (walk_type_error (JFloat m e)), JFloat m e, [])"
| "walk L scope (JString s) = (Some (walk_type_error (JString s)), JString s, [])"
| "walk L scope (JArray xs) = (Some (walk_type_error (JArray xs)), JArray xs, [])"
| "walk_items L scope [] = (None, [], [])"
| "walk_items L scope ((k, item) # rest) =
     (if is_dict item
      then (case walk L scope item of
              (Some e, item', writes) \<Rightarrow> (Some e, (k, item') # rest, writes)
            | (None, item', writes) \<Rightarrow>
                (case walk_items L scope rest of
                   (err, rest', writes') \<Rightarrow> (err, (k, item') # rest', writes @ writes')))
      else (case walk_items L scope rest of
              (err, rest', writes') \<Rightarrow> (err, (k, item) # rest', writes')))"

text \<open>The assignments of a walk, applied to a store in their order.\<close>

definition write_all :: "store_dict \<Rightarrow> (string \<times> json) list \<Rightarrow> store_dict" where
  "write_all st writes = foldl (\<lambda>m (k, v). m(k \<mapsto> v)) st writes"

text \<open>
  \<^verbatim>\<open>__init__\<close>, lines 105-120.  The default value of \<open>store\<close> is one dict, made when the
  \<^verbatim>\<open>def\<close> statement runs and kept with the function: it is the store at address
  \<open>default_store\<close>.  A caller who passes a store passes its address.  The resolver exists only
  when the walk has completed; the schema it holds is the caller's object, as the walk left
  it.  The heap is returned in both cases.
\<close>

definition default_store :: nat where
  "default_store = 0"

definition RefResolver_init ::
  "stdlib \<Rightarrow> json \<Rightarrow> json \<Rightarrow> nat option \<Rightarrow> bool \<Rightarrow> (string \<rightharpoonup> handler option) \<Rightarrow> heap
     \<Rightarrow> (error + resolver) \<times> heap" where
  "RefResolver_init L base sch store_arg cache_arg handlers_arg h =
     (let st = (case store_arg of None \<Rightarrow> default_store | Some a \<Rightarrow> a)
      in case walk L base sch of
           (err, sch', writes) \<Rightarrow>
             (let h' = h(st := write_all (h st) writes)
              in case err of
                   Some e \<Rightarrow> (Inl e, h')
                 | None \<Rightarrow>
                     (Inr \<lparr>base_uri = base, resolution_scope = base, schema = sch', store = st,
                           cache = cache_arg, handlers = handlers_arg,
                           unique_name_registry = Map.empty, unique_names_taken = {||}\<rparr>, h')))"

text \<open>\<^verbatim>\<open>from_schema\<close>, lines 122-132; \<open>store\<close> and \<open>cache\<close> are the keyword arguments.\<close>

definition from_schema ::
  "stdlib \<Rightarrow> json \<Rightarrow> (string \<rightharpoonup> handler option) \<Rightarrow> nat option \<Rightarrow> bool \<Rightarrow> heap
     \<Rightarrow> (error + resolver) \<times> heap" where
  "from_schema L sch handlers_arg store_arg cache_arg h =
     RefResolver_init L (case sch of JObject kvs \<Rightarrow> get_id kvs | _ \<Rightarrow> JString '''')
       sch store_arg cache_arg handlers_arg h"



text \<open>
  The order of the visits.  A Python \<^verbatim>\<open>dict\<close> holds each key once; \<open>distinct_keys\<close> says
  so of every dict of a document.  \<open>comes_before ks a b\<close>: in the keys \<open>ks\<close> of a dict, as
  \<^verbatim>\<open>items()\<close> yields them, \<open>b\<close> comes after \<open>a\<close>.  \<open>visited_before node p q\<close>: the walk
  of \<open>node\<close> gets to the position \<open>p\<close> before it gets to the position \<open>q\<close>; it gets to a
  dict before the items of the dict, and to everything below one item before the next item.
  \<open>store_key L scope node p\<close> is the key of the assignment to the store that the walk makes
  at the position \<open>p\<close> (lines 208-210), if it makes one there.
\<close>

fun distinct_keys :: "json \<Rightarrow> bool"
  and distinct_keys_items :: "(string \<times> json) list \<Rightarrow> bool"
  and distinct_keys_list :: "json list \<Rightarrow> bool" where
  "distinct_keys (JObject kvs) = (distinct (map fst kvs) \<and> distinct_keys_items kvs)"
| "distinct_keys (JArray xs) = distinct_keys_list xs"
| "distinct_keys JNull = True"
| "distinct_keys (JBool b) = True"
| "distinct_keys (JInt i) = True"
| "distinct_keys (JFloat m e) = True"
| "distinct_keys (JString s) = True"
| "distinct_keys_items [] = True"
| "distinct_keys_items ((k, v) # rest) = (distinct_keys v \<and> distinct_keys_items rest)"
| "distinct_keys_list [] = True"
| "distinct_keys_list (x # xs) = (distinct_keys x \<and> distinct_keys_list xs)"




section \<open>Unique names\<close>

text \<open>\<^verbatim>\<open>str(i)\<close> for an integer, as the f-string \<^verbatim>\<open>f'{name}_{idx}'\<close> renders \<open>idx\<close>.\<close>

definition digit_char :: "nat \<Rightarrow> char" where
  "digit_char d = char_of (48 + d)"

function str_nat :: "nat \<Rightarrow> string" where
  "str_nat n = (if n < 10 then [digit_char n] else str_nat (n div 10) @ [digit_char (n mod 10)])"
  by pat_completeness auto
termination
  by (relation "measure (\<lambda>n. n)") auto

declare str_nat.simps [simp del]

definition str_int :: "int \<Rightarrow> string" where
  "str_int i = (if i < 0 then CHR ''-'' # str_nat (nat (- i)) else str_nat (nat i))"

lemma digit_char_inj: "a < 10 \<Longrightarrow> b < 10 \<Longrightarrow> digit_char a = digit_char b \<Longrightarrow> a = b"
proof -
  assume a: "a < 10" and b: "b < 10" and e: "digit_char a = digit_char b"
  from e have "(of_char (digit_char a) :: nat) = of_char (digit_char b)" by simp
  with a b show "a = b" by (simp add: digit_char_def)
qed

lemma digit_char_not_minus: "d < 10 \<Longrightarrow> digit_char d \<noteq> CHR ''-''"
proof
  assume d: "d < 10" and e: "digit_char d = CHR ''-''"
  from e have "(of_char (digit_char d) :: nat) = of_char CHR ''-''" by simp
  with d show False by (simp add: digit_char_def)
qed

lemma str_nat_not_Nil: "str_nat n \<noteq> []"
  by (subst str_nat.simps) simp

lemma str_nat_hd: "hd (str_nat n) \<noteq> CHR ''-''"
proof (induction n rule: str_nat.induct)
  case (1 n)
  show ?case
  proof (cases "n < 10")
    case True
    then show ?thesis by (subst str_nat.simps) (simp add: digit_char_not_minus)
  next
    case False
    with 1 str_nat_not_Nil [of "n div 10"] show ?thesis
      by (subst str_nat.simps) simp
  qed
qed

lemma str_nat_inj: "str_nat n = str_nat m \<Longrightarrow> n = m"
proof (induction n arbitrary: m rule: str_nat.induct)
  case (1 n)
  show ?case
  proof (cases "n < 10")
    case n: True
    show ?thesis
    proof (cases "m < 10")
      case True
      with n "1.prems" show ?thesis
        by (simp add: str_nat.simps [of n] str_nat.simps [of m] digit_char_inj)
    next
      case False
      with n "1.prems" str_nat_not_Nil [of "m div 10"] show ?thesis
        by (simp add: str_nat.simps [of n] str_nat.simps [of m])
    qed
  next
    case n: False
    show ?thesis
    proof (cases "m < 10")
      case True
      with n "1.prems" str_nat_not_Nil [of "n div 10"] show ?thesis
        by (simp add: str_nat.simps [of n] str_nat.simps [of m])
    next
      case False
      with n "1.prems" have e: "str_nat (n div 10) = str_nat (m div 10)"
        and d: "digit_char (n mod 10) = digit_char (m mod 10)"
        by (simp_all add: str_nat.simps [of n] str_nat.simps [of m])
      from "1.IH" [OF n e] have "n div 10 = m div 10" .
      moreover from d have "n mod 10 = m mod 10" by (simp add: digit_char_inj)
      ultimately show ?thesis by (metis div_mult_mod_eq)
    qed
  qed
qed

lemma str_int_inj: "str_int i = str_int j \<Longrightarrow> i = j"
proof -
  assume e: "str_int i = str_int j"
  have neq: "CHR ''-'' # str_nat a \<noteq> str_nat b" for a b
    using str_nat_hd [of b] str_nat_not_Nil [of b] by (cases "str_nat b") auto
  show "i = j"
  proof (cases "i < 0")
    case i: True
    show ?thesis
    proof (cases "j < 0")
      case True
      with i e have "nat (- i) = nat (- j)" by (simp add: str_int_def str_nat_inj)
      with i True show ?thesis by simp
    next
      case False
      with i e neq [of "nat (- i)" "nat j"] show ?thesis by (simp add: str_int_def)
    qed
  next
    case i: False
    show ?thesis
    proof (cases "j < 0")
      case True
      with i e neq [of "nat (- j)" "nat i"] show ?thesis by (simp add: str_int_def)
    next
      case False
      with i e have "nat i = nat j" by (simp add: str_int_def str_nat_inj)
      with i False show ?thesis by simp
    qed
  qed
qed

text \<open>The candidate \<^verbatim>\<open>f'{name}_{idx}'\<close>.\<close>

definition suffixed :: "string \<Rightarrow> int \<Rightarrow> string" where
  "suffixed name idx = name @ ''_'' @ str_int idx"

lemma suffixed_inj: "suffixed name i = suffixed name j \<Longrightarrow> i = j"
  by (simp add: suffixed_def str_int_inj)

lemma finite_taken_suffixes: "finite {j. idx < j \<and> suffixed name j |\<in>| taken}"
proof -
  have "inj (suffixed name)"
    by (rule injI) (rule suffixed_inj)
  then have "finite (suffixed name -` fset taken)"
    by (intro finite_vimageI) simp_all
  moreover have "{j. idx < j \<and> suffixed name j |\<in>| taken} \<subseteq> suffixed name -` fset taken"
    by auto
  ultimately show ?thesis by (rule rev_finite_subset)
qed

text \<open>
  The loop of lines 190-192, from the values of \<open>idx\<close> and \<open>unique_name\<close> at its head.  It
  ends because the names taken are finitely many and the candidates differ from each other.
\<close>

function unique_loop :: "string \<Rightarrow> string fset \<Rightarrow> int \<Rightarrow> string \<Rightarrow> string" where
  "unique_loop name taken idx unique_name =
     (if unique_name |\<in>| taken
      then unique_loop name taken (idx + 1) (suffixed name (idx + 1))
      else unique_name)"
  by pat_completeness auto
termination
proof (relation "measure (\<lambda>(name, taken, idx, unique_name).
         2 * card {j. idx < j \<and> suffixed name j |\<in>| taken}
         + (if unique_name |\<in>| taken then 1 else 0))")
  show "wf (measure (\<lambda>(name, taken, idx, unique_name).
         2 * card {j. idx < j \<and> suffixed name j |\<in>| taken}
         + (if unique_name |\<in>| taken then 1 else 0)))"
    by simp
next
  fix name :: string and taken :: "string fset" and idx :: int and unique_name :: string
  assume "unique_name |\<in>| taken"
  let ?S = "\<lambda>i. {j. i < j \<and> suffixed name j |\<in>| taken}"
  have fin: "finite (?S idx)" by (rule finite_taken_suffixes)
  show "((name, taken, idx + 1, suffixed name (idx + 1)), (name, taken, idx, unique_name))
     \<in> measure (\<lambda>(name, taken, idx, unique_name).
         2 * card {j. idx < j \<and> suffixed name j |\<in>| taken}
         + (if unique_name |\<in>| taken then 1 else 0))"
  proof (cases "suffixed name (idx + 1) |\<in>| taken")
    case True
    have eq: "?S (idx + 1) = ?S idx - {idx + 1}" by auto
    from True have mem: "idx + 1 \<in> ?S idx" by simp
    from fin mem have "card (?S idx - {idx + 1}) < card (?S idx)"
      by (rule card_Diff1_less)
    then have "card (?S (idx + 1)) < card (?S idx)"
      by (simp only: eq)
    with True \<open>unique_name |\<in>| taken\<close> show ?thesis by simp
  next
    case False
    have "?S (idx + 1) = ?S idx"
    proof (rule set_eqI)
      fix j
      show "j \<in> ?S (idx + 1) \<longleftrightarrow> j \<in> ?S idx"
      proof (cases "j = idx + 1")
        case True
        with False show ?thesis by simp
      next
        case False
        then show ?thesis by auto
      qed
    qed
    with False \<open>unique_name |\<in>| taken\<close> show ?thesis by simp
  qed
qed

declare unique_loop.simps [simp del]

text \<open>
  Lines 183-186: the base name of a scope.  The regular expression
  \<^verbatim>\<open>($[^a-zA-Z]|[^a-zA-Z0-9])\<close> matches one character at a time, each character that is
  not an ASCII letter or digit (its first alternative can only match a final newline, which
  the second matches as well), so \<^verbatim>\<open>re.sub\<close> replaces every such character by one
  underscore.  The double quote is the character of code 34.
\<close>

definition scope_base_name :: "stdlib \<Rightarrow> string \<Rightarrow> string" where
  "scope_base_name L scope =
     rstrip ''_''
       (lower
          (map (\<lambda>c. if is_alnum c then c else CHR ''_'')
             (replace_str [CHR 0x22] ''''
                (replace_str ''~0'' ''_''
                   (replace_str ''~1'' ''_'' (''validate_'' @ unquote L scope))))))"

text \<open>
  \<^verbatim>\<open>get_scope_name\<close>, lines 178-197.  A scope that is not a string raises
  \<^verbatim>\<open>TypeError\<close>, in the dict lookup (a list or dict is not hashable) or in
  \<^verbatim>\<open>unquote\<close>.
\<close>

definition get_scope_name :: "stdlib \<Rightarrow> resolver \<Rightarrow> (error + string) \<times> resolver" where
  "get_scope_name L r =
     (case resolution_scope r of
        JString scope \<Rightarrow>
          (case unique_name_registry r scope of
             Some unique_name \<Rightarrow> (Inr unique_name, r)
           | None \<Rightarrow>
               (let name = scope_base_name L scope;
                    unique_name = unique_loop name (unique_names_taken r) (- 1) name
                in (Inr unique_name,
                    r\<lparr>unique_name_registry := (unique_name_registry r)(scope \<mapsto> unique_name),
                      unique_names_taken := finsert unique_name (unique_names_taken r)\<rparr>)))
      | _ \<Rightarrow> (Inl TypeError, r))"

text \<open>
  A sequence of calls of \<^verbatim>\<open>get_scope_name\<close> on one resolver, given by the resolution
  scopes under which the calls are made: the results in order, and the resolver afterwards.
  Between two calls only the scope changes; nothing else writes the registry.
\<close>

fun scope_names :: "stdlib \<Rightarrow> resolver \<Rightarrow> json list \<Rightarrow> (error + string) list \<times> resolver" where
  "scope_names L r [] = ([], r)"
| "scope_names L r (scope # scopes) =
     (case get_scope_name L (r\<lparr>resolution_scope := scope\<rparr>) of
        (res, r') \<Rightarrow>
          (case scope_names L r' scopes of (ress, r'') \<Rightarrow> (res # ress, r'')))"

text \<open>
  The invariant of the registry: every name it holds is in the set of names taken, and no
  two scopes hold the same name.  The comment at line 119 states the first half.
\<close>

definition registry_ok :: "resolver \<Rightarrow> bool" where
  "registry_ok r =
     (ran (unique_name_registry r) \<subseteq> fset (unique_names_taken r) \<and>
      inj_on (unique_name_registry r) (dom (unique_name_registry r)))"

text \<open>
  The base identifier in the words of the specification: the scope is percent-decoded, every
  run of characters that are not alphanumeric collapses to one separator, the result is
  lower-cased and its trailing separators are trimmed.
\<close>

function collapse_runs :: "string \<Rightarrow> string" where
  "collapse_runs [] = []"
| "collapse_runs (c # cs) =
     (if is_alnum c then c # collapse_runs cs
      else CHR ''_'' # collapse_runs (dropWhile (\<lambda>d. \<not> is_alnum d) cs))"
  by pat_completeness auto
termination
  by (relation "measure length") (auto simp: le_imp_less_Suc length_dropWhile_le)

definition stated_base_name :: "stdlib \<Rightarrow> string \<Rightarrow> string" where
  "stated_base_name L scope = rstrip ''_'' (lower (collapse_runs (unquote L scope)))"

section \<open>Example data\<close>

text \<open>A resolver for the document at \<open>http://h/root.json\<close>, with a handler for the scheme
  \<open>mem\<close> and one for the reserved scheme, each answering with a document that shows the
  handler and the URI it was called with; its store, at address 0, knows
  \<open>http://h/a.json\<close>.\<close>

definition ex_root :: json where
  "ex_root = JObject [(''definitions'', JObject [(''a'', JObject [(''type'', JString ''string'')])])]"

definition ex_resolver :: resolver where
  "ex_resolver =
     \<lparr>base_uri = JString ''http://h/root.json'', resolution_scope = JString ''http://h/root.json'',
      schema = ex_root, store = 0, cache = True,
      handlers = [''mem'' \<mapsto> Some (\<lambda>uri. Inr (JObject [(''mem'', JString uri)])),
                  ''internal-no-cache'' \<mapsto> Some (\<lambda>uri. Inr (JArray [JString uri]))],
      unique_name_registry = Map.empty, unique_names_taken = {||}\<rparr>"

definition ex_heap :: heap where
  "ex_heap = (\<lambda>a. Map.empty)(0 := [''http://h/a.json'' \<mapsto> JBool False])"





text \<open>A schema that names itself by \<open>$id\<close>, and one that uses the older key \<open>id\<close>.\<close>

definition ex_one :: json where
  "ex_one = JObject [(''$id'', JString ''http://h/one.json'')]"

definition ex_legacy :: json where
  "ex_legacy = JObject [(''id'', JString ''http://h/s.json''), (''type'', JString ''string'')]"

text \<open>A resolver under the scope \<open>a--b\<close>, with the base name of that scope and its first
  suffixed candidate taken by other scopes.\<close>

definition ex_named :: resolver where
  "ex_named = ex_resolver
     \<lparr>resolution_scope := JString ''a--b'',
      unique_name_registry := [''a__b'' \<mapsto> ''validate_a__b'', ''a b'' \<mapsto> ''validate_a__b_0''],
      unique_names_taken := {|''validate_a__b'', ''validate_a__b_0''|}\<rparr>"

section \<open>Properties of URI joining\<close>




section \<open>Properties of fragment resolution\<close>




text \<open>
  C7.  On the document \<open>{"a": [1, 2]}\<close> the pointer \<open>/a/5\<close> (index out of range) ends in
  \<^verbatim>\<open>IndexError\<close> and the pointer \<open>/a/x\<close> (not a number) in \<^verbatim>\<open>ValueError\<close>: neither is
  the definition error that the absent key of \<open>/b\<close> raises.
\<close>

theorem resolve_path_invalid_index_raises:
  "resolve_path py_offline (JObject [(''a'', JArray [JInt 1, JInt 2])]) ''/a/5'' = Inl IndexError \<and>
   resolve_path py_offline (JObject [(''a'', JArray [JInt 1, JInt 2])]) ''/a/x''
     = Inl (ValueError ''invalid literal for int() with base 10: x'') \<and>
   resolve_path py_offline (JObject [(''a'', JArray [JInt 1, JInt 2])]) ''/b''
     = Inl (JsonSchemaDefinitionException ''Unresolvable ref: b'')"
  by code_simp

section \<open>Properties of reference resolution\<close>

lemma resolve_remote_dispatch:
  "urlsplit L uri = Inr parts \<Longrightarrow> hs (scheme parts) = Some (Some handler) \<Longrightarrow>
   resolve_remote L uri hs = handler uri"
  by (simp add: resolve_remote_def ebind_def)

lemma resolve_path_empty_fragment: "resolve_path L doc '''' = Inr doc"
  by (simp add: resolve_path_def lstrip_def)

text \<open>
  C1.  In \<^verbatim>\<open>resolving(ref)\<close>, with \<open>uri\<close> the joined reference without its fragment and
  \<open>nuri\<close> its normal form, the target document is chosen in this order: the entry of the
  store under \<open>nuri\<close> when there is one; otherwise the root schema when \<open>uri\<close> is empty or
  equal to \<open>base_uri\<close>; otherwise the document that \<^verbatim>\<open>resolve_remote\<close> fetches (an
  exception of the fetch leaves the store as it was), and this document is written to the
  store under \<open>nuri\<close> exactly when \<open>cache\<close> is set and the scheme of \<open>nuri\<close> is not
  \<open>internal-no-cache\<close>.  The fetch is dispatched on the scheme of \<open>uri\<close>: when the
  resolver's handlers hold a handler under that scheme, the document is what this handler
  returns for \<open>uri\<close> (or the fetch raises what the handler raises); when they hold none, or
  \<^verbatim>\<open>None\<close>, it is the decoded answer of \<^verbatim>\<open>urlopen\<close>.  The enclosed block runs with
  the chosen document as \<open>schema\<close>.
\<close>

theorem resolving_target_document:
  "(\<forall>doc. h (store r) nuri = Some doc \<longrightarrow> resolving_document L nuri uri h r = Inr (doc, h)) \<and>
   (h (store r) nuri = None \<and> (uri = '''' \<or> JString uri = base_uri r) \<longrightarrow>
      resolving_document L nuri uri h r = Inr (schema r, h)) \<and>
   (h (store r) nuri = None \<and> uri \<noteq> '''' \<and> JString uri \<noteq> base_uri r \<longrightarrow>
      (\<forall>e. resolve_remote L uri (handlers r) = Inl e \<longrightarrow>
           resolving_document L nuri uri h r = Inl e) \<and>
      (\<forall>doc. resolve_remote L uri (handlers r) = Inr doc \<longrightarrow>
           (\<not> cache r \<longrightarrow> resolving_document L nuri uri h r = Inr (doc, h)) \<and>
           (\<forall>parts. cache r \<and> urlsplit L nuri = Inr parts \<longrightarrow>
                resolving_document L nuri uri h r =
                  Inr (doc, if scheme parts \<noteq> ''internal-no-cache''
                            then h(store r := (h (store r))(nuri \<mapsto> doc)) else h)))) \<and>
   (\<forall>new_uri frag doc h1 s v.
      join_scope L (resolution_scope r) ref = Inr new_uri \<and>
      urldefrag L new_uri = Inr (uri, frag) \<and>
      normalize L uri = Inr nuri \<and>
      resolving_document L nuri uri h r = Inr (doc, h1) \<and>
      join_scope L (resolution_scope r) uri = Inr s \<and>
      resolve_path L doc frag = Inr v \<longrightarrow>
      resolving L ref (\<lambda>v' h' r'. (Inr (v', schema r'), h', r')) h r = (Inr (v, doc), h1, r)) \<and>
   (\<forall>parts handler.
      urlsplit L uri = Inr parts \<and> handlers r (scheme parts) = Some (Some handler) \<longrightarrow>
      resolve_remote L uri (handlers r) = handler uri \<and>
      (h (store r) nuri = None \<and> uri \<noteq> '''' \<and> JString uri \<noteq> base_uri r \<longrightarrow>
         (\<forall>e. handler uri = Inl e \<longrightarrow> resolving_document L nuri uri h r = Inl e) \<and>
         (\<forall>doc. handler uri = Inr doc \<longrightarrow>
            (\<not> cache r \<longrightarrow> resolving_document L nuri uri h r = Inr (doc, h)) \<and>
            (\<forall>nparts. cache r \<and> urlsplit L nuri = Inr nparts \<longrightarrow>
                 resolving_document L nuri uri h r =
                   Inr (doc, if scheme nparts \<noteq> ''internal-no-cache''
                             then h(store r := (h (store r))(nuri \<mapsto> doc)) else h))))) \<and>
   (\<forall>parts.
      urlsplit L uri = Inr parts \<and>
      (handlers r (scheme parts) = None \<or> handlers r (scheme parts) = Some None) \<longrightarrow>
      (\<forall>e. urlopen L uri = Inl e \<longrightarrow> resolve_remote L uri (handlers r) = Inl e) \<and>
      (\<forall>req text doc.
         urlopen L uri = Inr req \<and> read_decode L req = Inr text \<and> json_loads L text = Inr doc \<longrightarrow>
         resolve_remote L uri (handlers r) = Inr doc))"
proof -
  have A: "\<forall>doc. h (store r) nuri = Some doc \<longrightarrow> resolving_document L nuri uri h r = Inr (doc, h)"
    by (simp add: resolving_document_def)
  have B: "h (store r) nuri = None \<and> (uri = '''' \<or> JString uri = base_uri r) \<longrightarrow>
      resolving_document L nuri uri h r = Inr (schema r, h)"
    by (auto simp: resolving_document_def)
  have C: "h (store r) nuri = None \<and> uri \<noteq> '''' \<and> JString uri \<noteq> base_uri r \<longrightarrow>
      (\<forall>e. resolve_remote L uri (handlers r) = Inl e \<longrightarrow>
           resolving_document L nuri uri h r = Inl e) \<and>
      (\<forall>doc. resolve_remote L uri (handlers r) = Inr doc \<longrightarrow>
           (\<not> cache r \<longrightarrow> resolving_document L nuri uri h r = Inr (doc, h)) \<and>
           (\<forall>parts. cache r \<and> urlsplit L nuri = Inr parts \<longrightarrow>
                resolving_document L nuri uri h r =
                  Inr (doc, if scheme parts \<noteq> ''internal-no-cache''
                            then h(store r := (h (store r))(nuri \<mapsto> doc)) else h)))"
    by (auto simp: resolving_document_def ebind_def)
  have D: "\<forall>new_uri frag doc h1 s v.
      join_scope L (resolution_scope r) ref = Inr new_uri \<and>
      urldefrag L new_uri = Inr (uri, frag) \<and>
      normalize L uri = Inr nuri \<and>
      resolving_document L nuri uri h r = Inr (doc, h1) \<and>
      join_scope L (resolution_scope r) uri = Inr s \<and>
      resolve_path L doc frag = Inr v \<longrightarrow>
      resolving L ref (\<lambda>v' h' r'. (Inr (v', schema r'), h', r')) h r = (Inr (v, doc), h1, r)"
    by (simp add: resolving_def in_scope_def Let_def)
  have E: "\<forall>parts handler.
      urlsplit L uri = Inr parts \<and> handlers r (scheme parts) = Some (Some handler) \<longrightarrow>
      resolve_remote L uri (handlers r) = handler uri \<and>
      (h (store r) nuri = None \<and> uri \<noteq> '''' \<and> JString uri \<noteq> base_uri r \<longrightarrow>
         (\<forall>e. handler uri = Inl e \<longrightarrow> resolving_document L nuri uri h r = Inl e) \<and>
         (\<forall>doc. handler uri = Inr doc \<longrightarrow>
            (\<not> cache r \<longrightarrow> resolving_document L nuri uri h r = Inr (doc, h)) \<and>
            (\<forall>nparts. cache r \<and> urlsplit L nuri = Inr nparts \<longrightarrow>
                 resolving_document L nuri uri h r =
                   Inr (doc, if scheme nparts \<noteq> ''internal-no-cache''
                             then h(store r := (h (store r))(nuri \<mapsto> doc)) else h))))"
  proof (intro allI impI, elim conjE)
    fix parts handler
    assume "urlsplit L uri = Inr parts" and "handlers r (scheme parts) = Some (Some handler)"
    then have d: "resolve_remote L uri (handlers r) = handler uri"
      by (rule resolve_remote_dispatch)
    show "resolve_remote L uri (handlers r) = handler uri \<and>
      (h (store r) nuri = None \<and> uri \<noteq> '''' \<and> JString uri \<noteq> base_uri r \<longrightarrow>
         (\<forall>e. handler uri = Inl e \<longrightarrow> resolving_document L nuri uri h r = Inl e) \<and>
         (\<forall>doc. handler uri = Inr doc \<longrightarrow>
            (\<not> cache r \<longrightarrow> resolving_document L nuri uri h r = Inr (doc, h)) \<and>
            (\<forall>nparts. cache r \<and> urlsplit L nuri = Inr nparts \<longrightarrow>
                 resolving_document L nuri uri h r =
                   Inr (doc, if scheme nparts \<noteq> ''internal-no-cache''
                             then h(store r := (h (store r))(nuri \<mapsto> doc)) else h))))"
      using C d by simp
  qed
  have F: "\<forall>parts.
      urlsplit L uri = Inr parts \<and>
      (handlers r (scheme parts) = None \<or> handlers r (scheme parts) = Some None) \<longrightarrow>
      (\<forall>e. urlopen L uri = Inl e \<longrightarrow> resolve_remote L uri (handlers r) = Inl e) \<and>
      (\<forall>req text doc.
         urlopen L uri = Inr req \<and> read_decode L req = Inr text \<and> json_loads L text = Inr doc \<longrightarrow>
         resolve_remote L uri (handlers r) = Inr doc)"
    by (auto simp: resolve_remote_def ebind_def)
  show ?thesis
    by (intro conjI) (fact A, fact B, fact C, fact D, fact E, fact F)
qed

theorem resolving_target_document_witness:
  "resolving_document py_offline ''http://h/a.json'' ''http://h/a.json'' ex_heap ex_resolver
     = Inr (JBool False, ex_heap) \<and>
   resolving_document py_offline ''http://h/root.json'' ''http://h/root.json'' ex_heap ex_resolver
     = Inr (ex_root, ex_heap) \<and>
   resolving_document py_offline ''mem://x/y'' ''mem://x/y'' ex_heap ex_resolver
     = Inr (JObject [(''mem'', JString ''mem://x/y'')],
            ex_heap(0 := (ex_heap 0)(''mem://x/y'' \<mapsto> JObject [(''mem'', JString ''mem://x/y'')]))) \<and>
   resolving_document py_offline ''internal-no-cache://x/y'' ''internal-no-cache://x/y''
       ex_heap ex_resolver
     = Inr (JArray [JString ''internal-no-cache://x/y''], ex_heap) \<and>
   resolving_document py_offline ''http://h/b.json'' ''http://h/b.json'' ex_heap ex_resolver
     = Inl (OtherError ''URLError'') \<and>
   resolving py_offline ''mem://x/y'' (\<lambda>v' h' r'. (Inr (v', schema r'), h', r')) ex_heap ex_resolver
     = (Inr (JObject [(''mem'', JString ''mem://x/y'')], JObject [(''mem'', JString ''mem://x/y'')]),
        ex_heap(0 := (ex_heap 0)(''mem://x/y'' \<mapsto> JObject [(''mem'', JString ''mem://x/y'')])),
        ex_resolver)"
proof -
  let ?hm = "\<lambda>uri. Inr (JObject [(''mem'', JString uri)]) :: error + json"
  let ?hi = "\<lambda>uri. Inr (JArray [JString uri]) :: error + json"
  let ?dm = "JObject [(''mem'', JString ''mem://x/y'')]"
  let ?di = "JArray [JString ''internal-no-cache://x/y'']"
  let ?pm = "\<lparr>scheme = ''mem'', netloc = ''x'', path = ''/y'', query = '''', fragment = ''''\<rparr>"
  let ?pi = "\<lparr>scheme = ''internal-no-cache'', netloc = ''x'', path = ''/y'', query = '''',
             fragment = ''''\<rparr>"
  let ?pb = "\<lparr>scheme = ''http'', netloc = ''h'', path = ''/b.json'', query = '''', fragment = ''''\<rparr>"
  note Ta = resolving_target_document
      [of ex_heap ex_resolver "''http://h/a.json''" py_offline "''http://h/a.json''"]
  note Tr = resolving_target_document
      [of ex_heap ex_resolver "''http://h/root.json''" py_offline "''http://h/root.json''"]
  note Tm = resolving_target_document
      [of ex_heap ex_resolver "''mem://x/y''" py_offline "''mem://x/y''" "''mem://x/y''"]
  note Ti = resolving_target_document
      [of ex_heap ex_resolver "''internal-no-cache://x/y''" py_offline "''internal-no-cache://x/y''"]
  note Tb = resolving_target_document
      [of ex_heap ex_resolver "''http://h/b.json''" py_offline "''http://h/b.json''"]
  have sm: "urlsplit py_offline ''mem://x/y'' = Inr ?pm"
    by code_simp
  have si: "urlsplit py_offline ''internal-no-cache://x/y'' = Inr ?pi"
    by code_simp
  have sb: "urlsplit py_offline ''http://h/b.json'' = Inr ?pb"
    by code_simp
  have hm: "handlers ex_resolver (scheme ?pm) = Some (Some ?hm)"
    and hi: "handlers ex_resolver (scheme ?pi) = Some (Some ?hi)"
    and hb: "handlers ex_resolver (scheme ?pb) = None"
    by (simp_all add: ex_resolver_def)
  have uo: "urlopen py_offline ''http://h/b.json'' = Inl (OtherError ''URLError'')"
    by (simp add: py_offline_def py_stdlib_def)
  have st: "ex_heap (store ex_resolver) ''http://h/a.json'' = Some (JBool False)"
      "ex_heap (store ex_resolver) ''http://h/root.json'' = None"
      "ex_heap (store ex_resolver) ''mem://x/y'' = None"
      "ex_heap (store ex_resolver) ''internal-no-cache://x/y'' = None"
      "ex_heap (store ex_resolver) ''http://h/b.json'' = None"
    by (simp_all add: ex_heap_def ex_resolver_def)
  have bu: "base_uri ex_resolver = JString ''http://h/root.json''" "cache ex_resolver"
      "schema ex_resolver = ex_root" "store ex_resolver = 0"
    by (simp_all add: ex_resolver_def)
  have j: "join_scope py_offline (resolution_scope ex_resolver) ''mem://x/y'' = Inr ''mem://x/y''"
    unfolding ex_resolver_def by code_simp
  have d: "urldefrag py_offline ''mem://x/y'' = Inr (''mem://x/y'', '''')"
    by code_simp
  have n: "normalize py_offline ''mem://x/y'' = Inr ''mem://x/y''"
    by code_simp
  have c1: "resolving_document py_offline ''http://h/a.json'' ''http://h/a.json'' ex_heap ex_resolver
     = Inr (JBool False, ex_heap)"
    using Ta [THEN conjunct1, rule_format, OF st(1)] .
  have c2: "resolving_document py_offline ''http://h/root.json'' ''http://h/root.json''
       ex_heap ex_resolver = Inr (ex_root, ex_heap)"
    using Tr [THEN conjunct2, THEN conjunct1] st(2) bu by simp
  note Em = Tm [THEN conjunct2, THEN conjunct2, THEN conjunct2, THEN conjunct2, THEN conjunct1,
      rule_format, OF conjI, OF sm hm]
  have c3: "resolving_document py_offline ''mem://x/y'' ''mem://x/y'' ex_heap ex_resolver
     = Inr (?dm, ex_heap(0 := (ex_heap 0)(''mem://x/y'' \<mapsto> ?dm)))"
    using Em [THEN conjunct2] st(3) bu sm by simp
  note Ei = Ti [THEN conjunct2, THEN conjunct2, THEN conjunct2, THEN conjunct2, THEN conjunct1,
      rule_format, OF conjI, OF si hi]
  have c4: "resolving_document py_offline ''internal-no-cache://x/y'' ''internal-no-cache://x/y''
       ex_heap ex_resolver = Inr (?di, ex_heap)"
    using Ei [THEN conjunct2] st(4) bu si by simp
  note Fb = Tb [THEN conjunct2, THEN conjunct2, THEN conjunct2, THEN conjunct2, THEN conjunct2,
      rule_format, OF conjI, OF sb disjI1, OF hb]
  have rb: "resolve_remote py_offline ''http://h/b.json'' (handlers ex_resolver)
      = Inl (OtherError ''URLError'')"
    using Fb [THEN conjunct1, rule_format, OF uo] .
  have c6: "resolving_document py_offline ''http://h/b.json'' ''http://h/b.json'' ex_heap ex_resolver
     = Inl (OtherError ''URLError'')"
    using Tb [THEN conjunct2, THEN conjunct2, THEN conjunct1] st(5) bu rb by simp
  have p: "resolve_path py_offline ?dm '''' = Inr ?dm"
    by (rule resolve_path_empty_fragment)
  have c5: "resolving py_offline ''mem://x/y'' (\<lambda>v' h' r'. (Inr (v', schema r'), h', r'))
       ex_heap ex_resolver
     = (Inr (?dm, ?dm), ex_heap(0 := (ex_heap 0)(''mem://x/y'' \<mapsto> ?dm)), ex_resolver)"
    using Tm [THEN conjunct2, THEN conjunct2, THEN conjunct2, THEN conjunct1, rule_format,
        of "''mem://x/y''" "''''" ?dm "ex_heap(0 := (ex_heap 0)(''mem://x/y'' \<mapsto> ?dm))"
           "''mem://x/y''" ?dm]
      j d n c3 p by simp
  show ?thesis
    by (intro conjI) (fact c1, fact c2, fact c3, fact c4, fact c6, fact c5)
qed

text \<open>
  C3.  Whatever the enclosed block does and however \<^verbatim>\<open>resolving(ref)\<close> is left, by
  the block's result or by an exception of the join, of the fetch, of the fragment resolution
  or of the block, the resolver's \<open>base_uri\<close>, \<open>schema\<close> and \<open>resolution_scope\<close> are
  afterwards what they were before the call.
\<close>

theorem resolving_restores_state:
  "base_uri (snd (snd (resolving L ref body h r))) = base_uri r \<and>
   schema (snd (snd (resolving L ref body h r))) = schema r \<and>
   resolution_scope (snd (snd (resolving L ref body h r))) = resolution_scope r"
  by (auto simp: resolving_def in_scope_def Let_def split: sum.splits prod.splits)

theorem resolving_restores_state_witness:
  "base_uri (snd (snd (resolving py_offline ''#/no/such/key''
       (\<lambda>v h r. (Inr v, h, r\<lparr>base_uri := JNull, resolution_scope := JNull\<rparr>))
       ex_heap ex_resolver))) = JString ''http://h/root.json'' \<and>
   schema (snd (snd (resolving py_offline ''#/no/such/key''
       (\<lambda>v h r. (Inr v, h, r\<lparr>base_uri := JNull, resolution_scope := JNull\<rparr>))
       ex_heap ex_resolver))) = ex_root \<and>
   resolution_scope (snd (snd (resolving py_offline ''#/no/such/key''
       (\<lambda>v h r. (Inr v, h, r\<lparr>base_uri := JNull, resolution_scope := JNull\<rparr>))
       ex_heap ex_resolver))) = JString ''http://h/root.json''"
  using resolving_restores_state
    [of py_offline "''#/no/such/key''"
        "\<lambda>v h r. (Inr v, h, r\<lparr>base_uri := JNull, resolution_scope := JNull\<rparr>)"
        ex_heap ex_resolver]
  by (simp add: ex_resolver_def)

section \<open>Properties of the walk and of the constructor\<close>



lemma write_all_Nil: "write_all m [] = m"
  by (simp add: write_all_def)

lemma write_all_snoc: "write_all m (ws @ [(k, v)]) = (write_all m ws)(k \<mapsto> v)"
  by (simp add: write_all_def)

lemma write_all_written:
  "k \<in> fst ` set ws \<Longrightarrow> \<exists>v. (k, v) \<in> set ws \<and> write_all m ws k = Some v"
proof (induction ws rule: rev_induct)
  case Nil
  then show ?case by simp
next
  case (snoc a ws)
  obtain k' v' where a: "a = (k', v')" by (cases a)
  show ?case
  proof (cases "k' = k")
    case True
    with a show ?thesis by (auto simp: write_all_snoc)
  next
    case False
    with snoc.prems a have "k \<in> fst ` set ws" by auto
    from snoc.IH [OF this] a False show ?thesis by (auto simp: write_all_snoc)
  qed
qed


lemma RefResolver_init_Inr:
  assumes "RefResolver_init L base sch store_arg c hs h = (Inr r, h')"
  shows "walk L base sch = (None, schema r, snd (snd (walk L base sch)))"
    and "h' = h(store r := write_all (h (store r)) (snd (snd (walk L base sch))))"
    and "store r = (case store_arg of None \<Rightarrow> default_store | Some a \<Rightarrow> a)"
    and "base_uri r = base"
    and "resolution_scope r = base"
    and "unique_name_registry r = Map.empty"
    and "unique_names_taken r = {||}"
proof -
  obtain err sch' ws where w: "walk L base sch = (err, sch', ws)"
    by (cases "walk L base sch") auto
  from assms w have e: "err = None"
    by (cases err) (simp_all add: RefResolver_init_def Let_def)
  from assms w e have r: "r = \<lparr>base_uri = base, resolution_scope = base, schema = sch',
        store = (case store_arg of None \<Rightarrow> default_store | Some a \<Rightarrow> a),
        cache = c, handlers = hs,
        unique_name_registry = Map.empty, unique_names_taken = {||}\<rparr>"
    and h: "h' = h((case store_arg of None \<Rightarrow> default_store | Some a \<Rightarrow> a) :=
        write_all (h (case store_arg of None \<Rightarrow> default_store | Some a \<Rightarrow> a)) ws)"
    by (simp_all add: RefResolver_init_def Let_def)
  from w e r show "walk L base sch = (None, schema r, snd (snd (walk L base sch)))" by simp
  from r show "store r = (case store_arg of None \<Rightarrow> default_store | Some a \<Rightarrow> a)" by simp
  from r h w show "h' = h(store r := write_all (h (store r)) (snd (snd (walk L base sch))))"
    by simp
  from r show "base_uri r = base" "resolution_scope r = base"
    "unique_name_registry r = Map.empty" "unique_names_taken r = {||}" by simp_all
qed











lemma distinct_keys_itemsD:
  "distinct_keys_items kvs \<Longrightarrow> (k, item) \<in> set kvs \<Longrightarrow> distinct_keys item"
  by (induction kvs) auto






lemma write_all_dom: "k \<in> dom m \<Longrightarrow> k \<in> dom (write_all m ws)"
  by (induction ws rule: rev_induct) (auto simp: write_all_snoc write_all_Nil)

lemma write_all_dom_written: "k \<in> fst ` set ws \<Longrightarrow> k \<in> dom (write_all m ws)"
  using write_all_written [of k ws m] by auto

text \<open>
  C9.  Two resolvers constructed without a \<open>store\<close> argument hold the same store object,
  the one default dict of \<^verbatim>\<open>__init__\<close>: every key that the walk of either constructor has
  assigned is in the store the other one reads, and a document that one of them finds or
  caches under a normalized URI while resolving is the document the other one gets for that
  URI.
\<close>

theorem default_store_shared:
  assumes "RefResolver_init L base1 sch1 None c1 hs1 h = (Inr r1, h1)"
    and "RefResolver_init L base2 sch2 None c2 hs2 h1 = (Inr r2, h2)"
  shows "store r1 = store r2 \<and>
         (\<forall>k. k \<in> fst ` set (snd (snd (walk L base1 sch1))) \<longrightarrow> h2 (store r2) k \<noteq> None) \<and>
         (\<forall>k. k \<in> fst ` set (snd (snd (walk L base2 sch2))) \<longrightarrow> h2 (store r1) k \<noteq> None) \<and>
         (\<forall>nuri uri uri' doc h3.
            resolving_document L nuri uri h2 r1 = Inr (doc, h3) \<and> h3 (store r1) nuri = Some doc \<longrightarrow>
            resolving_document L nuri uri' h3 r2 = Inr (doc, h3))"
proof -
  have s1: "store r1 = default_store"
    using RefResolver_init_Inr(3) [OF assms(1)] by simp
  have s2: "store r2 = default_store"
    using RefResolver_init_Inr(3) [OF assms(2)] by simp
  have e1: "h1 default_store = write_all (h default_store) (snd (snd (walk L base1 sch1)))"
    using RefResolver_init_Inr(2) [OF assms(1)] s1 by simp
  have e2: "h2 default_store = write_all (h1 default_store) (snd (snd (walk L base2 sch2)))"
    using RefResolver_init_Inr(2) [OF assms(2)] s2 by simp
  have a: "h2 (store r2) k \<noteq> None" if "k \<in> fst ` set (snd (snd (walk L base1 sch1)))" for k
  proof -
    from that have "k \<in> dom (h1 default_store)"
      unfolding e1 by (rule write_all_dom_written)
    then have "k \<in> dom (h2 default_store)"
      unfolding e2 by (rule write_all_dom)
    then show ?thesis using s2 by auto
  qed
  have b: "h2 (store r1) k \<noteq> None" if "k \<in> fst ` set (snd (snd (walk L base2 sch2)))" for k
  proof -
    from that have "k \<in> dom (h2 default_store)"
      unfolding e2 by (rule write_all_dom_written)
    then show ?thesis using s1 by auto
  qed
  have c: "resolving_document L nuri uri' h3 r2 = Inr (doc, h3)"
    if "h3 (store r1) nuri = Some doc" for nuri uri' doc h3
    using that s1 s2 by (simp add: resolving_document_def)
  from s1 s2 a b c show ?thesis by simp
qed

theorem default_store_shared_witness:
  "(case RefResolver_init py_offline (JString ''http://h/one.json'') ex_one None True Map.empty
           (\<lambda>a. Map.empty) of
      (Inr r1, h1) \<Rightarrow>
        (case RefResolver_init py_offline (JString '''') (JBool True) None True Map.empty h1 of
           (Inr r2, h2) \<Rightarrow> store r1 = store r2 \<and> h2 (store r2) ''http://h/one.json'' \<noteq> None
         | (Inl e, h2) \<Rightarrow> False)
    | (Inl e, h1) \<Rightarrow> False)"
proof -
  let ?r1 = "\<lparr>base_uri = JString ''http://h/one.json'',
              resolution_scope = JString ''http://h/one.json'', schema = ex_one,
              store = default_store, cache = True, handlers = Map.empty,
              unique_name_registry = Map.empty, unique_names_taken = {||}\<rparr>"
  let ?h1 = "(\<lambda>a. Map.empty)(default_store := write_all Map.empty [(''http://h/one.json'', ex_one)])"
  let ?r2 = "\<lparr>base_uri = JString '''', resolution_scope = JString '''', schema = JBool True,
              store = default_store, cache = True, handlers = Map.empty,
              unique_name_registry = Map.empty, unique_names_taken = {||}\<rparr>"
  let ?h2 = "?h1(default_store := write_all (?h1 default_store) [])"
  have w: "walk py_offline (JString ''http://h/one.json'') ex_one
      = (None, ex_one, [(''http://h/one.json'', ex_one)])"
    unfolding ex_one_def by code_simp
  have i1: "RefResolver_init py_offline (JString ''http://h/one.json'') ex_one None True Map.empty
       (\<lambda>a. Map.empty) = (Inr ?r1, ?h1)"
    by (simp add: RefResolver_init_def w Let_def)
  have i2: "RefResolver_init py_offline (JString '''') (JBool True) None True Map.empty ?h1
      = (Inr ?r2, ?h2)"
    by (simp add: RefResolver_init_def Let_def)
  have "store ?r1 = store ?r2 \<and> ?h2 (store ?r2) ''http://h/one.json'' \<noteq> None"
    using default_store_shared [OF i1 i2] w by simp
  with i1 i2 show ?thesis by simp
qed

text \<open>
  C10.  \<^verbatim>\<open>get_id\<close> returns the value of \<open>$id\<close> when the mapping has that key, otherwise
  the value of \<open>id\<close> when it has that one, otherwise the empty string.  The resolver that
  \<^verbatim>\<open>from_schema\<close> constructs has exactly this value as \<open>base_uri\<close> when the schema is a
  mapping, and the empty string when it is not; for a boolean schema the construction
  always succeeds.
\<close>

theorem from_schema_base_uri:
  "(\<forall>v. map_of kvs ''$id'' = Some v \<longrightarrow> get_id kvs = v) \<and>
   (\<forall>v. map_of kvs ''$id'' = None \<and> map_of kvs ''id'' = Some v \<longrightarrow> get_id kvs = v) \<and>
   (map_of kvs ''$id'' = None \<and> map_of kvs ''id'' = None \<longrightarrow> get_id kvs = JString '''') \<and>
   (\<forall>r h'. from_schema L (JObject kvs) hs store_arg c h = (Inr r, h') \<longrightarrow>
            base_uri r = get_id kvs) \<and>
   (\<forall>r h'. from_schema L sch hs store_arg c h = (Inr r, h') \<and> \<not> is_dict sch \<longrightarrow>
            base_uri r = JString '''') \<and>
   (\<exists>r h'. from_schema L (JBool b) hs store_arg c h = (Inr r, h') \<and> base_uri r = JString '''')"
proof -
  have d: "base_uri r = get_id kvs"
    if "from_schema L (JObject kvs) hs store_arg c h = (Inr r, h')" for r h'
    using RefResolver_init_Inr(4) [OF that [unfolded from_schema_def]] by simp
  have n: "base_uri r = JString ''''"
    if "from_schema L sch hs store_arg c h = (Inr r, h')" "\<not> is_dict sch" for r h'
    using RefResolver_init_Inr(4) [OF that(1) [unfolded from_schema_def]] that(2)
    by (cases sch) (simp_all add: is_dict_def)
  have b: "\<exists>r h'. from_schema L (JBool b) hs store_arg c h = (Inr r, h') \<and> base_uri r = JString ''''"
    by (simp add: from_schema_def RefResolver_init_def Let_def)
  from d n b show ?thesis by (auto simp: get_id_def)
qed

theorem from_schema_base_uri_witness:
  "get_id [(''id'', JString ''http://h/s.json''), (''type'', JString ''string'')]
     = JString ''http://h/s.json'' \<and>
   (case from_schema py_offline ex_legacy Map.empty None True (\<lambda>a. Map.empty) of
      (Inr r, h') \<Rightarrow> base_uri r = JString ''http://h/s.json''
    | (Inl e, h') \<Rightarrow> False) \<and>
   (case from_schema py_offline (JArray []) Map.empty None True (\<lambda>a. Map.empty) of
      (Inr r, h') \<Rightarrow> False
    | (Inl e, h') \<Rightarrow> e = AttributeError)"
proof -
  let ?kvs = "[(''id'', JString ''http://h/s.json''), (''type'', JString ''string'')]"
  let ?r = "\<lparr>base_uri = JString ''http://h/s.json'',
             resolution_scope = JString ''http://h/s.json'', schema = ex_legacy,
             store = default_store, cache = True, handlers = Map.empty,
             unique_name_registry = Map.empty, unique_names_taken = {||}\<rparr>"
  let ?h = "(\<lambda>a. Map.empty)(default_store := write_all Map.empty [(''http://h/s.json'', ex_legacy)])"
  have g: "get_id ?kvs = JString ''http://h/s.json''"
    using from_schema_base_uri [of ?kvs] by simp
  have b: "(case ex_legacy of JObject kvs \<Rightarrow> get_id kvs | _ \<Rightarrow> JString '''')
      = JString ''http://h/s.json''"
    using g by (simp add: ex_legacy_def)
  have w: "walk py_offline (JString ''http://h/s.json'') ex_legacy
      = (None, ex_legacy, [(''http://h/s.json'', ex_legacy)])"
    unfolding ex_legacy_def by code_simp
  have i: "from_schema py_offline ex_legacy Map.empty None True (\<lambda>a. Map.empty) = (Inr ?r, ?h)"
    by (simp add: from_schema_def b RefResolver_init_def w Let_def)
  have "base_uri ?r = get_id ?kvs"
    using from_schema_base_uri [of ?kvs py_offline Map.empty None True "\<lambda>a. Map.empty"]
      i [unfolded ex_legacy_def]
    by (simp add: ex_legacy_def)
  moreover have "from_schema py_offline (JArray []) Map.empty None True (\<lambda>a. Map.empty)
      = (Inl AttributeError, (\<lambda>a. Map.empty)(default_store := write_all Map.empty []))"
    by (simp add: from_schema_def RefResolver_init_def Let_def walk_type_error_def)
  ultimately show ?thesis using g i by simp
qed

section \<open>Properties of the unique names\<close>

lemma unique_loop_free: "unique_loop name taken idx u |\<notin>| taken"
proof (induction name taken idx u rule: unique_loop.induct)
  case (1 name taken idx u)
  then show ?case by (subst unique_loop.simps) simp
qed

lemma unique_loop_unchanged: "u |\<notin>| taken \<Longrightarrow> unique_loop name taken idx u = u"
  by (subst unique_loop.simps) simp

lemma unique_loop_first:
  "u |\<in>| taken \<Longrightarrow>
   \<exists>k. idx < k \<and> unique_loop name taken idx u = suffixed name k \<and>
       (\<forall>j. idx < j \<and> j < k \<longrightarrow> suffixed name j |\<in>| taken)"
proof (induction name taken idx u rule: unique_loop.induct)
  case (1 name taken idx u)
  have step: "unique_loop name taken idx u
      = unique_loop name taken (idx + 1) (suffixed name (idx + 1))"
    using "1.prems" by (subst unique_loop.simps) simp
  show ?case
  proof (cases "suffixed name (idx + 1) |\<in>| taken")
    case False
    then have "unique_loop name taken idx u = suffixed name (idx + 1)"
      using step by (simp add: unique_loop_unchanged)
    moreover have "\<forall>j. idx < j \<and> j < idx + 1 \<longrightarrow> suffixed name j |\<in>| taken" by auto
    ultimately show ?thesis by (intro exI [of _ "idx + 1"]) simp
  next
    case True
    from "1.IH" [OF "1.prems" True] obtain k where
      k: "idx + 1 < k" "unique_loop name taken (idx + 1) (suffixed name (idx + 1)) = suffixed name k"
         "\<forall>j. idx + 1 < j \<and> j < k \<longrightarrow> suffixed name j |\<in>| taken"
      by blast
    have "suffixed name j |\<in>| taken" if "idx < j" "j < k" for j
    proof (cases "j = idx + 1")
      case True
      with \<open>suffixed name (idx + 1) |\<in>| taken\<close> show ?thesis by simp
    next
      case False
      with that k(3) show ?thesis by auto
    qed
    with k step show ?thesis by (intro exI [of _ k]) auto
  qed
qed

lemma registry_ok_scope [simp]: "registry_ok (r\<lparr>resolution_scope := s\<rparr>) = registry_ok r"
  by (simp add: registry_ok_def)

lemma get_scope_name_step:
  assumes ok: "registry_ok r" and g: "get_scope_name L r = (res, r')"
  shows "registry_ok r' \<and> unique_name_registry r \<subseteq>\<^sub>m unique_name_registry r' \<and>
         (\<forall>n. res = Inr n \<longrightarrow>
            (\<exists>s. resolution_scope r = JString s \<and> unique_name_registry r' s = Some n))"
proof (cases "resolution_scope r")
  case (JString s)
  show ?thesis
  proof (cases "unique_name_registry r s")
    case (Some n)
    with JString g ok show ?thesis by (auto simp: get_scope_name_def)
  next
    case None
    define u where "u = unique_loop (scope_base_name L s) (unique_names_taken r) (- 1)
      (scope_base_name L s)"
    have fresh: "u |\<notin>| unique_names_taken r"
      unfolding u_def by (rule unique_loop_free)
    from g JString None have res: "res = Inr u"
      and r': "r' = r\<lparr>unique_name_registry := (unique_name_registry r)(s \<mapsto> u),
                       unique_names_taken := finsert u (unique_names_taken r)\<rparr>"
      by (simp_all add: get_scope_name_def Let_def u_def)
    from ok have ran: "ran (unique_name_registry r) \<subseteq> fset (unique_names_taken r)"
      and inj: "inj_on (unique_name_registry r) (dom (unique_name_registry r))"
      by (simp_all add: registry_ok_def)
    have notran: "unique_name_registry r x \<noteq> Some u" for x
      using ran fresh by (auto simp: ran_def)
    have ran': "ran ((unique_name_registry r)(s \<mapsto> u)) \<subseteq> fset (finsert u (unique_names_taken r))"
      using ran None by (auto simp: ran_def)
    have inj': "inj_on ((unique_name_registry r)(s \<mapsto> u)) (dom ((unique_name_registry r)(s \<mapsto> u)))"
    proof (rule inj_onI)
      fix x y
      assume x: "x \<in> dom ((unique_name_registry r)(s \<mapsto> u))"
        and y: "y \<in> dom ((unique_name_registry r)(s \<mapsto> u))"
        and e: "((unique_name_registry r)(s \<mapsto> u)) x = ((unique_name_registry r)(s \<mapsto> u)) y"
      show "x = y"
      proof (cases "x = s")
        case True
        with e notran [of y] show ?thesis by (cases "y = s") auto
      next
        case xs: False
        show ?thesis
        proof (cases "y = s")
          case True
          with e xs notran [of x] show ?thesis by auto
        next
          case False
          with xs x y e have "x \<in> dom (unique_name_registry r)" "y \<in> dom (unique_name_registry r)"
            "unique_name_registry r x = unique_name_registry r y" by auto
          with inj show ?thesis by (auto dest: inj_onD)
        qed
      qed
    qed
    have le: "unique_name_registry r \<subseteq>\<^sub>m (unique_name_registry r)(s \<mapsto> u)"
      using None by (auto simp: map_le_def)
    from ran' inj' le res r' JString show ?thesis
      by (simp add: registry_ok_def)
  qed
qed (use g ok in \<open>auto simp: get_scope_name_def\<close>)

lemma scope_names_registry:
  "registry_ok r \<Longrightarrow> scope_names L r scopes = (names, r') \<Longrightarrow>
   registry_ok r' \<and> unique_name_registry r \<subseteq>\<^sub>m unique_name_registry r' \<and>
   length names = length scopes \<and>
   (\<forall>i < length scopes. \<forall>n. names ! i = Inr n \<longrightarrow>
      (\<exists>s. scopes ! i = JString s \<and> unique_name_registry r' s = Some n))"
proof (induction scopes arbitrary: r names)
  case Nil
  then show ?case by simp
next
  case (Cons scope scopes)
  obtain res r1 where g: "get_scope_name L (r\<lparr>resolution_scope := scope\<rparr>) = (res, r1)"
    by (cases "get_scope_name L (r\<lparr>resolution_scope := scope\<rparr>)") auto
  obtain ress where rest: "scope_names L r1 scopes = (ress, r')" and names: "names = res # ress"
    using Cons.prems(2) g by (auto split: prod.splits)
  from Cons.prems(1) have ok0: "registry_ok (r\<lparr>resolution_scope := scope\<rparr>)" by simp
  from get_scope_name_step [OF ok0 g] have ok1: "registry_ok r1"
    and le1: "unique_name_registry r \<subseteq>\<^sub>m unique_name_registry r1"
    and res: "\<And>n. res = Inr n \<Longrightarrow> \<exists>s. scope = JString s \<and> unique_name_registry r1 s = Some n"
    by auto
  from Cons.IH [OF ok1 rest] have ok': "registry_ok r'"
    and le2: "unique_name_registry r1 \<subseteq>\<^sub>m unique_name_registry r'"
    and len: "length ress = length scopes"
    and rs: "\<And>i n. i < length scopes \<Longrightarrow> ress ! i = Inr n \<Longrightarrow>
               \<exists>s. scopes ! i = JString s \<and> unique_name_registry r' s = Some n"
    by auto
  have le: "unique_name_registry r \<subseteq>\<^sub>m unique_name_registry r'"
    using le1 le2 by (rule map_le_trans)
  have "\<exists>s. (scope # scopes) ! i = JString s \<and> unique_name_registry r' s = Some n"
    if "i < length (scope # scopes)" "names ! i = Inr n" for i n
  proof (cases i)
    case 0
    with that names have "res = Inr n" by simp
    from res [OF this] obtain s where s: "scope = JString s" "unique_name_registry r1 s = Some n"
      by blast
    from s(2) le2 have "unique_name_registry r' s = Some n"
      by (auto simp: map_le_def dom_def)
    with s(1) 0 show ?thesis by simp
  next
    case (Suc i')
    with that names rs [of i' n] show ?thesis by simp
  qed
  with ok' le len names show ?case by simp
qed

lemma RefResolver_init_registry_ok:
  "RefResolver_init L base sch store_arg c hs h = (Inr r, h') \<Longrightarrow> registry_ok r"
  using RefResolver_init_Inr(6,7) [of L base sch store_arg c hs h r h']
  by (simp add: registry_ok_def)

text \<open>
  C4.  In a sequence of \<^verbatim>\<open>get_scope_name\<close> calls on one resolver (whose registry is as
  the constructor made it, or as earlier calls left it), two calls that return do so with
  the same identifier exactly when they were made under the same resolution scope; and the
  registry is only extended, no scope ever gets another name.
\<close>

theorem scope_names_unique:
  assumes "registry_ok r"
    and "scope_names L r scopes = (names, r')"
    and "i < length scopes" and "j < length scopes"
    and "names ! i = Inr a" and "names ! j = Inr b"
  shows "(a = b \<longleftrightarrow> scopes ! i = scopes ! j) \<and>
         unique_name_registry r \<subseteq>\<^sub>m unique_name_registry r'"
proof -
  note R = scope_names_registry [OF assms(1,2)]
  from R assms(3,5) obtain s where s: "scopes ! i = JString s" "unique_name_registry r' s = Some a"
    by blast
  from R assms(4,6) obtain t where t: "scopes ! j = JString t" "unique_name_registry r' t = Some b"
    by blast
  from R have inj: "inj_on (unique_name_registry r') (dom (unique_name_registry r'))"
    by (simp add: registry_ok_def)
  have "a = b \<longleftrightarrow> s = t"
  proof
    assume "a = b"
    with s t have "unique_name_registry r' s = unique_name_registry r' t" by simp
    moreover from s t have "s \<in> dom (unique_name_registry r')" "t \<in> dom (unique_name_registry r')"
      by auto
    ultimately show "s = t" using inj by (auto dest: inj_onD)
  next
    assume "s = t"
    with s t show "a = b" by simp
  qed
  with s t R show ?thesis by simp
qed

theorem scope_names_unique_witness:
  "registry_ok ex_resolver \<and>
   fst (scope_names py_offline ex_resolver [JString ''a/b'', JString ''a_b'', JString ''a/b''])
     = [Inr ''validate_a_b'', Inr ''validate_a_b_0'', Inr ''validate_a_b'']"
proof -
  let ?scopes = "[JString ''a/b'', JString ''a_b'', JString ''a/b'']"
  let ?names = "[Inr ''validate_a_b'', Inr ''validate_a_b_0'', Inr ''validate_a_b'']"
  have ok: "registry_ok ex_resolver"
    by (simp add: registry_ok_def ex_resolver_def)
  have e: "fst (scope_names py_offline ex_resolver ?scopes) = ?names"
    unfolding ex_resolver_def by code_simp
  then have p: "scope_names py_offline ex_resolver ?scopes
      = (?names, snd (scope_names py_offline ex_resolver ?scopes))"
    by (simp add: prod_eq_iff)
  have "(''validate_a_b'' = ''validate_a_b_0'') = (JString ''a/b'' = JString ''a_b'')"
    using scope_names_unique [OF ok p, of 0 1 "''validate_a_b''" "''validate_a_b_0''"] by simp
  moreover have "(''validate_a_b'' = ''validate_a_b'') = (JString ''a/b'' = JString ''a/b'')"
    using scope_names_unique [OF ok p, of 0 2 "''validate_a_b''" "''validate_a_b''"] by simp
  ultimately show ?thesis using ok e by simp
qed

lemma rstrip_single:
  "\<exists>n. t = rstrip [x] t @ replicate n x \<and> (rstrip [x] t = [] \<or> last (rstrip [x] t) \<noteq> x)"
proof -
  let ?P = "\<lambda>c. c \<in> set [x]"
  have tw: "takeWhile ?P ys = replicate (length (takeWhile ?P ys)) x" for ys
    by (induction ys) auto
  have "rev t = takeWhile ?P (rev t) @ dropWhile ?P (rev t)" by simp
  then have "t = rev (dropWhile ?P (rev t)) @ rev (takeWhile ?P (rev t))"
    by (metis rev_append rev_rev_ident)
  also have "rev (takeWhile ?P (rev t)) = replicate (length (takeWhile ?P (rev t))) x"
    by (subst tw) simp
  finally have a: "t = rstrip [x] t @ replicate (length (takeWhile ?P (rev t))) x"
    by (simp add: rstrip_def)
  have b: "rstrip [x] t = [] \<or> last (rstrip [x] t) \<noteq> x"
  proof (cases "dropWhile ?P (rev t) = []")
    case True
    then show ?thesis by (simp add: rstrip_def)
  next
    case False
    then have "\<not> ?P (hd (dropWhile ?P (rev t)))" by (rule hd_dropWhile)
    with False show ?thesis by (simp add: rstrip_def last_rev)
  qed
  from a b show ?thesis by blast
qed

lemma lower_sanitized:
  "lower (map (\<lambda>c. if is_alnum c then c else CHR ''_'') s)
     = map (\<lambda>c. if is_alnum c then lower_char c else CHR ''_'') s"
  by (simp add: lower_def lower_char_def is_upper_def code_of_def)

text \<open>
  C5 as stated fails on a scope with two adjacent characters that are not alphanumeric:
  under the scope \<open>a--b\<close> the identifier is \<open>validate_a__b\<close>, with one separator for each
  of the two characters, where collapsing the run gives \<open>a_b\<close>.
\<close>

theorem get_scope_name_keeps_runs_counterexample:
  "fst (get_scope_name py_offline (ex_resolver\<lparr>resolution_scope := JString ''a--b''\<rparr>))
     = Inr ''validate_a__b'' \<and>
   stated_base_name py_offline ''a--b'' = ''a_b''"
proof -
  have "fst (get_scope_name py_offline (ex_resolver\<lparr>resolution_scope := JString ''a--b''\<rparr>))
     = Inr ''validate_a__b''"
    unfolding ex_resolver_def by code_simp
  moreover have "stated_base_name py_offline ''a--b'' = ''a_b''"
    by code_simp
  ultimately show ?thesis by simp
qed

text \<open>
  C5, amended.  Under a scope that has no name yet, \<^verbatim>\<open>get_scope_name\<close> returns a name that
  was not taken.  Its base name is the text \<open>validate_\<close> followed by the percent-decoded
  scope, in which \<open>~1\<close> and \<open>~0\<close> become a separator and double quotes are removed, then each
  character that is not alphanumeric is replaced by one separator (runs are kept at their
  length) and the letters are lower-cased, then all trailing separators are cut.  The
  result is the base name when that is free; otherwise it is the base name with the suffix
  \<open>_k\<close> for the least \<open>k \<ge> 0\<close> whose candidate is free.
\<close>

theorem get_scope_name_new_scope:
  assumes "resolution_scope r = JString scope"
    and "unique_name_registry r scope = None"
  shows "\<exists>u n. fst (get_scope_name L r) = Inr u \<and> u |\<notin>| unique_names_taken r \<and>
     map (\<lambda>c. if is_alnum c then lower_char c else CHR ''_'')
       (replace_str [CHR 0x22] ''''
          (replace_str ''~0'' ''_''
             (replace_str ''~1'' ''_'' (''validate_'' @ unquote L scope))))
       = scope_base_name L scope @ replicate n (CHR ''_'') \<and>
     (scope_base_name L scope = [] \<or> last (scope_base_name L scope) \<noteq> CHR ''_'') \<and>
     (if scope_base_name L scope |\<notin>| unique_names_taken r then u = scope_base_name L scope
      else \<exists>k. 0 \<le> k \<and> u = suffixed (scope_base_name L scope) k \<and>
             (\<forall>j. 0 \<le> j \<and> j < k \<longrightarrow>
                suffixed (scope_base_name L scope) j |\<in>| unique_names_taken r))"
proof -
  define name where "name = scope_base_name L scope"
  define taken where "taken = unique_names_taken r"
  define u where "u = unique_loop name taken (- 1) name"
  define s where "s = replace_str [CHR 0x22] ''''
          (replace_str ''~0'' ''_''
             (replace_str ''~1'' ''_'' (''validate_'' @ unquote L scope)))"
  define t where "t = map (\<lambda>c. if is_alnum c then lower_char c else CHR ''_'') s"
  have res: "fst (get_scope_name L r) = Inr u"
    using assms by (simp add: get_scope_name_def Let_def u_def name_def taken_def)
  have free: "u |\<notin>| taken"
    unfolding u_def by (rule unique_loop_free)
  have nm: "name = rstrip ''_'' t"
    by (simp add: name_def scope_base_name_def lower_sanitized t_def s_def)
  from rstrip_single [of t "CHR ''_''"] obtain n where
    n: "t = name @ replicate n (CHR ''_'')" and l: "name = [] \<or> last name \<noteq> CHR ''_''"
    unfolding nm by blast
  have pick: "if name |\<notin>| taken then u = name
      else \<exists>k. 0 \<le> k \<and> u = suffixed name k \<and> (\<forall>j. 0 \<le> j \<and> j < k \<longrightarrow> suffixed name j |\<in>| taken)"
  proof (cases "name |\<in>| taken")
    case False
    then show ?thesis by (simp add: u_def unique_loop_unchanged)
  next
    case True
    from unique_loop_first [OF True, of "- 1" name] obtain k where
      k: "- 1 < k" "u = suffixed name k" "\<forall>j. - 1 < j \<and> j < k \<longrightarrow> suffixed name j |\<in>| taken"
      unfolding u_def by blast
    have "0 \<le> k" using k(1) by simp
    moreover have "\<forall>j. 0 \<le> j \<and> j < k \<longrightarrow> suffixed name j |\<in>| taken"
      using k(3) by auto
    ultimately show ?thesis using True k(2) by auto
  qed
  from res free n l pick show ?thesis
    unfolding name_def taken_def t_def s_def by blast
qed

theorem get_scope_name_new_scope_witness:
  "resolution_scope ex_named = JString ''a--b'' \<and>
   unique_name_registry ex_named ''a--b'' = None \<and>
   fst (get_scope_name py_offline ex_named) = Inr ''validate_a__b_1'' \<and>
   ''validate_a__b_1'' |\<notin>| unique_names_taken ex_named \<and>
   scope_base_name py_offline ''a--b'' = ''validate_a__b'' \<and>
   suffixed ''validate_a__b'' 1 = ''validate_a__b_1''"
proof -
  have s: "resolution_scope ex_named = JString ''a--b''"
    and n: "unique_name_registry ex_named ''a--b'' = None"
    by (simp_all add: ex_named_def ex_resolver_def)
  have e: "fst (get_scope_name py_offline ex_named) = Inr ''validate_a__b_1''"
    unfolding ex_named_def ex_resolver_def by code_simp
  have b: "scope_base_name py_offline ''a--b'' = ''validate_a__b''"
    by code_simp
  have x: "suffixed ''validate_a__b'' 1 = ''validate_a__b_1''"
    by code_simp
  from get_scope_name_new_scope [OF s n, of py_offline] obtain u where
    "fst (get_scope_name py_offline ex_named) = Inr u" "u |\<notin>| unique_names_taken ex_named"
    by blast
  with e have "''validate_a__b_1'' |\<notin>| unique_names_taken ex_named" by simp
  with s n e b x show ?thesis by simp
qed

end
